theory Spec2Isabelle
  imports Complex_Main
begin

section \<open>The grid facade of lightsim2grid (GridModel.h, GridModel.cpp)\<close>

text \<open>
  A shallow embedding of the class \<^verbatim>\<open>GridModel\<close>. A \<^verbatim>\<open>double\<close> is read as the real number it
  stands for and a \<^verbatim>\<open>cdouble\<close> as the complex number of its two parts; an operation on them
  rounds its exact result (section "Double precision"). \<^verbatim>\<open>int\<close> is read as the integers (the
  only arithmetic on it counts buses, far below where it would wrap), a \<^verbatim>\<open>std::vector\<close> or an
  Eigen vector as a list. A \<^verbatim>\<open>throw\<close> is the outcome \<open>Throws\<close>; the
  members written before the \<^verbatim>\<open>throw\<close> stay written, so a member function returns its outcome
  together with the object as the call leaves it. A member \<^verbatim>\<open>x_\<close> of the class is the field
  \<open>x_'\<close> of the record (a name cannot end with an underscore here).

  GridModel.cpp knows five element families (lines, shunts, transformers, loads,
  generators); GridModel.h declares two more members, \<^verbatim>\<open>sgens_\<close> and \<^verbatim>\<open>storages_\<close>, and the
  scalars \<^verbatim>\<open>init_vm_pu_\<close> and \<^verbatim>\<open>sn_mva_\<close>. The record of the grid has them all; every function
  is the one of the file that defines it.
\<close>

subsection \<open>Errors and outcomes\<close>

text \<open>
  The source throws \<^verbatim>\<open>std::runtime_error\<close> with a message; the constructors name the messages.
  \<open>OutOfRange\<close> stands for an access outside a vector, which the source does not check
  (\<^verbatim>\<open>operator[]\<close>, \<^verbatim>\<open>coeffRef\<close>): the model stops there instead of reading an unspecified value.
\<close>

datatype error =
    InputSizeMismatch          \<comment> \<open>"Size of the Vinit should be the same as the total number of buses"\<close>
  | SlackDisconnected          \<comment> \<open>"The slack bus is disconnected."\<close>
  | SlackInvalid               \<comment> \<open>"Slack bus should be an id of a generator, ..."\<close>
  | DisconnectedBusReferenced  \<comment> \<open>an active element points at an inactive bus\<close>
  | BusNotInSolver             \<comment> \<open>"One bus is connected in GridModel and disconnected in Solver"\<close>
  | OutOfRange
  | ElementError nat           \<comment> \<open>a failure inside an element collection, whose code is in other files\<close>

datatype 'a outcome = Returns 'a | Throws error

text \<open>A read \<^verbatim>\<open>xs[i]\<close> with an \<^verbatim>\<open>int\<close> index.\<close>

definition read_at :: "'a list \<Rightarrow> int \<Rightarrow> 'a outcome" where
  "read_at xs i = (if 0 \<le> i \<and> i < int (length xs) then Returns (xs ! nat i) else Throws OutOfRange)"

text \<open>The next statement runs only if the one before did not throw; the vector both write stays.\<close>

definition and_then :: "unit outcome \<times> 'a \<Rightarrow> ('a \<Rightarrow> unit outcome \<times> 'a) \<Rightarrow> unit outcome \<times> 'a" where
  "and_then m f = (case m of (Returns _, x) \<Rightarrow> f x | (Throws e, x) \<Rightarrow> (Throws e, x))"

definition bind_outcome :: "'a outcome \<Rightarrow> ('a \<Rightarrow> 'b outcome) \<Rightarrow> 'b outcome" where
  "bind_outcome m f = (case m of Returns x \<Rightarrow> f x | Throws e \<Rightarrow> Throws e)"

subsection \<open>Data\<close>

text \<open>An Eigen sparse matrix: its shape and its entries (row, column, value); entries at one
  coordinate add up, as \<^verbatim>\<open>setFromTriplets\<close> adds them.\<close>

record 'a SparseMatrix =
  rows :: nat
  cols :: nat
  entries :: "(int \<times> int \<times> 'a) list"

definition empty_matrix :: "nat \<Rightarrow> nat \<Rightarrow> 'a SparseMatrix" where
  "empty_matrix r c = \<lparr>rows = r, cols = c, entries = []\<rparr>"

text \<open>\<^verbatim>\<open>DataGeneric::_deactivated_bus_id\<close>: "by default, if a bus is disconnected, then it has a -1 there".\<close>

definition deactivated_bus_id :: int where
  "deactivated_bus_id = - 1"

text \<open>
  The five output parameters that \<^verbatim>\<open>init_Ybus\<close> receives by reference: the members
  \<^verbatim>\<open>Ybus_\<close>, \<^verbatim>\<open>Sbus_\<close>, \<^verbatim>\<open>id_me_to_solver_\<close>, \<^verbatim>\<open>id_solver_to_me_\<close>, \<^verbatim>\<open>slack_bus_id_solver_\<close> of the
  grid in \<^verbatim>\<open>pre_process_solver\<close>, locals in \<^verbatim>\<open>dc_pf_old\<close>.
\<close>

record bus_refs =
  Ybus :: "complex SparseMatrix"
  Sbus :: "complex list"
  id_me_to_solver :: "int list"
  id_solver_to_me :: "int list"
  slack_bus_id_solver :: int

text \<open>The values that \<^verbatim>\<open>GridModel::reset\<close> (lines 148 to 152) gives to these five.\<close>

definition reset_refs :: bus_refs where
  "reset_refs = \<lparr>Ybus = empty_matrix 0 0, Sbus = [], id_me_to_solver = [],
                  id_solver_to_me = [], slack_bus_id_solver = - 1\<rparr>"

subsection \<open>Double precision\<close>

text \<open>
  The sum, the difference and the product of two doubles are the exact result rounded to a
  double (IEEE 754): \<open>rnd\<close> is the rounding. It is a parameter, and so is the precision: "real_type
  may be 32- or 64-bit float; all Y and S arithmetic is at this precision". \<open>binary64\<close>
  below is the rounding of a \<^verbatim>\<open>double\<close>. \<open>lib_cos\<close>, \<open>lib_sin\<close> and \<open>lib_arg\<close> are \<^verbatim>\<open>cos\<close>, \<^verbatim>\<open>sin\<close> and
  \<^verbatim>\<open>std::arg\<close> of the C library, whose last bit no standard fixes. Infinities and NaN are not
  modelled.
\<close>

record double_ops =
  rnd :: "real \<Rightarrow> real"
  lib_cos :: "real \<Rightarrow> real"
  lib_sin :: "real \<Rightarrow> real"
  lib_arg :: "complex \<Rightarrow> real"

text \<open>
  \<^verbatim>\<open>res.sum()\<close> on an Eigen vector of \<^verbatim>\<open>cdouble\<close>: 0 for the empty vector; otherwise the first
  coefficient, to which the next ones are added one by one, each part of each sum rounded.
  (A build that vectorises the reduction adds in another order; two coefficients have one
  order only.)
\<close>

definition dsum :: "(real \<Rightarrow> real) \<Rightarrow> complex list \<Rightarrow> complex" where
  "dsum r xs =
     (case xs of
        [] \<Rightarrow> 0
      | x # rest \<Rightarrow> foldl (\<lambda>a b. Complex (r (Re a + Re b)) (r (Im a + Im b))) x rest)"

subsection \<open>The element collections\<close>

text \<open>
  Modelled from the spec: the generator collection \<^verbatim>\<open>DataGen\<close> (DataGen.h and DataGen.cpp are not among the files verified here).
  "Generator (voltage-controlled, PV). Bus, P setpoint, V setpoint (pu magnitude), Q_min,
  Q_max, status. [...] Tracks post-solve Q". The results are the three vectors of
  \<^verbatim>\<open>get_gen_res\<close>.
\<close>

record generator =
  gen_bus :: int
  gen_p :: real
  gen_v :: real
  gen_q_min :: real
  gen_q_max :: real
  gen_status :: bool

record DataGen =
  gens :: "generator list"
  gens_res :: "real list \<times> real list \<times> real list"

text \<open>
  Modelled from the spec: the collection \<^verbatim>\<open>DataLoad\<close> (DataLoad.h is not among the files verified here), the type of
  both \<^verbatim>\<open>loads_\<close> and \<^verbatim>\<open>storages_\<close>. "Load. Bus, P, Q, status." "Storage. Bus, P, Q, status."
\<close>

record load =
  load_bus :: int
  load_p :: real
  load_q :: real
  load_status :: bool

record DataLoad =
  loads :: "load list"
  loads_res :: "real list \<times> real list \<times> real list"

text \<open>Modelled from the spec: \<^verbatim>\<open>DataGen::nb\<close>, the number of generators of the collection (the
  ids "in range" are those below it).\<close>

definition nb :: "DataGen \<Rightarrow> int" where
  "nb g = int (length (gens g))"

text \<open>
  Modelled from the spec: \<^verbatim>\<open>DataGen::get_slack_bus_id\<close>. "A single generator id is designated
  slack; its bus becomes the slack bus. Invariants: [...] slack generator must be active; if
  violated, solve fails before iteration." "SlackInvalid: slack generator id out of range or
  inactive."
\<close>

definition get_slack_bus_id :: "DataGen \<Rightarrow> int \<Rightarrow> int outcome" where
  "get_slack_bus_id g gen_id =
     (if gen_id < 0 \<or> nb g \<le> gen_id then Throws SlackInvalid
      else if \<not> gen_status (gens g ! nat gen_id) then Throws SlackInvalid
      else Returns (gen_bus (gens g ! nat gen_id)))"

text \<open>
  Modelled from the spec: \<^verbatim>\<open>DataGen::fillpv\<close>. "classify_pv(pv_out, already_classified,
  slack_solver_id, ext_to_solver): for generators, mark their bus as PV unless it is the
  slack bus." "pv = buses hosting at least one active voltage-controlled generator,
  excluding slack." "DisconnectedBusReferenced: an active element points at an inactive bus."
  The pair is \<^verbatim>\<open>(bus_pv, has_bus_been_added)\<close>.
\<close>

fun gen_fillpv ::
  "generator list \<Rightarrow> int list \<times> bool list \<Rightarrow> int \<Rightarrow> int list \<Rightarrow> unit outcome \<times> int list \<times> bool list" where
  "gen_fillpv [] acc slack me_to_solver = (Returns (), acc)"
| "gen_fillpv (g # gs) (bus_pv, added) slack me_to_solver =
     (if \<not> gen_status g then gen_fillpv gs (bus_pv, added) slack me_to_solver
      else case read_at me_to_solver (gen_bus g) of
        Throws e \<Rightarrow> (Throws e, bus_pv, added)
      | Returns bus_id_solver \<Rightarrow>
          if bus_id_solver = deactivated_bus_id then (Throws DisconnectedBusReferenced, bus_pv, added)
          else if bus_id_solver = slack then gen_fillpv gs (bus_pv, added) slack me_to_solver
          else case read_at added bus_id_solver of
            Throws e \<Rightarrow> (Throws e, bus_pv, added)
          | Returns True \<Rightarrow> gen_fillpv gs (bus_pv, added) slack me_to_solver
          | Returns False \<Rightarrow>
              gen_fillpv gs (bus_pv @ [bus_id_solver], added[nat bus_id_solver := True])
                slack me_to_solver)"

text \<open>
  Modelled from the spec: \<^verbatim>\<open>DataGen::fillSbus\<close>. "Contributes +P to S at its bus", "skip if
  inactive", and an active generator on a disconnected bus is \<open>DisconnectedBusReferenced\<close>.
  The value is added as it is stored: the call in GridModel.cpp passes no base power. It is
  a \<^verbatim>\<open>double\<close> added to a \<^verbatim>\<open>cdouble\<close>: the real part is the rounded sum, the imaginary part stays.
\<close>

fun gen_fillSbus ::
  "(real \<Rightarrow> real) \<Rightarrow> generator list \<Rightarrow> complex list \<Rightarrow> bool \<Rightarrow> int list \<Rightarrow> unit outcome \<times> complex list" where
  "gen_fillSbus r [] res ac me_to_solver = (Returns (), res)"
| "gen_fillSbus r (g # gs) res ac me_to_solver =
     (if \<not> gen_status g then gen_fillSbus r gs res ac me_to_solver
      else case read_at me_to_solver (gen_bus g) of
        Throws e \<Rightarrow> (Throws e, res)
      | Returns bus_id_solver \<Rightarrow>
          if bus_id_solver = deactivated_bus_id then (Throws DisconnectedBusReferenced, res)
          else case read_at res bus_id_solver of
            Throws e \<Rightarrow> (Throws e, res)
          | Returns s \<Rightarrow>
              gen_fillSbus r gs (res[nat bus_id_solver := Complex (r (Re s + gen_p g)) (Im s)])
                ac me_to_solver)"

text \<open>
  Modelled from the spec: \<^verbatim>\<open>DataGen::get_vm_for_dc\<close>. "|V| returned as 1 pu on connected PQ
  buses, as the generator voltage setpoint on PV/slack buses": every active generator
  writes its setpoint at its bus, in the order of the collection.
\<close>

fun get_vm_for_dc :: "generator list \<Rightarrow> real list \<Rightarrow> unit outcome \<times> real list" where
  "get_vm_for_dc [] Vm = (Returns (), Vm)"
| "get_vm_for_dc (g # gs) Vm =
     (if \<not> gen_status g then get_vm_for_dc gs Vm
      else if 0 \<le> gen_bus g \<and> gen_bus g < int (length Vm)
      then get_vm_for_dc gs (Vm[nat (gen_bus g) := gen_v g])
      else (Throws OutOfRange, Vm))"

text \<open>
  Modelled from the spec: \<^verbatim>\<open>DataLoad::change_p\<close>, a continuous mutation ("change P/Q/V
  setpoints"): it writes the setpoint of one element; "each mutation flips a dirty flag";
  "input-validation errors are raised immediately and leave state untouched". The pair is
  the collection and the flag \<^verbatim>\<open>need_reset\<close> it receives by reference.
\<close>

definition change_p :: "int \<Rightarrow> real \<Rightarrow> DataLoad \<times> bool \<Rightarrow> unit outcome \<times> DataLoad \<times> bool" where
  "change_p load_id new_p d =
     (case d of (c, need_reset) \<Rightarrow>
        if 0 \<le> load_id \<and> load_id < int (length (loads c))
        then (Returns (),
              c\<lparr>loads := (loads c)[nat load_id := (loads c ! nat load_id)\<lparr>load_p := new_p\<rparr>]\<rparr>,
              True)
        else (Throws OutOfRange, c, need_reset))"

text \<open>
  The methods of the collections that are defined in other files and that no property below depends
  on are parameters. What GridModel.cpp calls on a \<^verbatim>\<open>DataGeneric\<close>:
\<close>

record 'c element_ops =
  fillYbus_of :: "'c \<Rightarrow> (int \<times> int \<times> complex) list \<Rightarrow> bool \<Rightarrow> int list
                   \<Rightarrow> (int \<times> int \<times> complex) list outcome"
  fillSbus_of :: "'c \<Rightarrow> complex list \<Rightarrow> bool \<Rightarrow> int list \<Rightarrow> unit outcome \<times> complex list"
  compute_results_of :: "'c \<Rightarrow> real list \<Rightarrow> real list \<Rightarrow> complex list \<Rightarrow> int list \<Rightarrow> real list \<Rightarrow> 'c"
  reset_results_of :: "'c \<Rightarrow> 'c"
  get_p_slack_of :: "'c \<Rightarrow> int \<Rightarrow> real"
  get_q_of :: "'c \<Rightarrow> real list \<Rightarrow> real list"

subsection \<open>The solver\<close>

text \<open>
  Modelled from the spec: \<^verbatim>\<open>ChooseSolver\<close> (ChooseSolver.h is not among the files verified here). "solver
  selection (AC method variant, DC)"; "the solver owns its iterate V, \<theta>, |V| [...] across
  calls (reused across iterations, cleared on reset)". GridModel.cpp names one selection,
  \<^verbatim>\<open>SolverType::DC\<close>.
\<close>

datatype SolverType = AC nat | DC

record ChooseSolver =
  solver_type :: SolverType
  solver_V :: "complex list"
  solver_Va :: "real list"
  solver_Vm :: "real list"

definition get_type :: "ChooseSolver \<Rightarrow> SolverType" where
  "get_type sv = solver_type sv"

definition change_solver :: "SolverType \<Rightarrow> ChooseSolver \<Rightarrow> ChooseSolver" where
  "change_solver t sv = sv\<lparr>solver_type := t\<rparr>"

definition solver_reset :: "ChooseSolver \<Rightarrow> ChooseSolver" where
  "solver_reset sv = sv\<lparr>solver_V := [], solver_Va := [], solver_Vm := []\<rparr>"

definition get_V :: "ChooseSolver \<Rightarrow> complex list" where
  "get_V sv = solver_V sv"

subsection \<open>What the grid calls in other files\<close>

text \<open>
  The numerical code: the stamps and the result projection of the collections, the power
  flow of the selected solver (it answers whether it converged, with V, \<theta> and |V|),
  Eigen's sparse LU (\<open>None\<close>: \<^verbatim>\<open>info() != Success\<close>), and the arithmetic of the machine.
\<close>

record ('l, 's, 't) collaborators =
  line_ops :: "'l element_ops"
  shunt_ops :: "'s element_ops"
  trafo_ops :: "'t element_ops"
  load_ops :: "DataLoad element_ops"
  gen_fillYbus :: "DataGen \<Rightarrow> (int \<times> int \<times> complex) list \<Rightarrow> bool \<Rightarrow> int list
                    \<Rightarrow> (int \<times> int \<times> complex) list outcome"
  gen_compute_results :: "DataGen \<Rightarrow> real list \<Rightarrow> real list \<Rightarrow> complex list \<Rightarrow> int list
                    \<Rightarrow> real list \<Rightarrow> DataGen"
  gen_reset_results :: "DataGen \<Rightarrow> DataGen"
  gen_init_q_vector :: "DataGen \<Rightarrow> nat \<Rightarrow> DataGen"
  gen_set_vm :: "DataGen \<Rightarrow> complex list \<Rightarrow> int list \<Rightarrow> unit outcome \<times> complex list"
  gen_set_p_slack :: "DataGen \<Rightarrow> int \<Rightarrow> real \<Rightarrow> DataGen"
  gen_set_q :: "DataGen \<Rightarrow> real list \<Rightarrow> DataGen"
  solver_compute_pf :: "ChooseSolver \<Rightarrow> complex SparseMatrix \<Rightarrow> complex list \<Rightarrow> complex list
                    \<Rightarrow> int list \<Rightarrow> int list \<Rightarrow> int \<Rightarrow> real
                    \<Rightarrow> bool \<times> complex list \<times> real list \<times> real list"
  lu_factorize :: "real SparseMatrix \<Rightarrow> bool"
  lu_solve :: "real SparseMatrix \<Rightarrow> real list \<Rightarrow> real list option"
  arith :: double_ops

text \<open>\<^verbatim>\<open>_solver.compute_pf\<close>: the solver keeps what it computed.\<close>

definition compute_pf ::
  "('l, 's, 't) collaborators \<Rightarrow> ChooseSolver \<Rightarrow> complex SparseMatrix \<Rightarrow> complex list \<Rightarrow> complex list
     \<Rightarrow> int list \<Rightarrow> int list \<Rightarrow> int \<Rightarrow> real \<Rightarrow> bool \<times> ChooseSolver" where
  "compute_pf env sv Y V S pv pq max_iter tol =
     (case solver_compute_pf env sv Y V S pv pq max_iter tol of
        (conv, V', Va', Vm') \<Rightarrow> (conv, sv\<lparr>solver_V := V', solver_Va := Va', solver_Vm := Vm'\<rparr>))"

subsection \<open>The grid\<close>

text \<open>
  The members of GridModel.h, lines 464 to 520. \<open>refs_'\<close> holds the five members that
  \<^verbatim>\<open>init_Ybus\<close> writes. The tables of lines 523 to 538 serve \<^verbatim>\<open>update_topo\<close> alone and are left
  out. \<open>'l\<close>, \<open>'s\<close>, \<open>'t\<close>, \<open>'sg\<close> are \<^verbatim>\<open>DataLine\<close>, \<^verbatim>\<open>DataShunt\<close>, \<^verbatim>\<open>DataTrafo\<close>, \<^verbatim>\<open>DataSGen\<close>.
\<close>

record ('l, 's, 't, 'sg) GridModel =
  need_reset_' :: bool
  compute_results_' :: bool
  init_vm_pu_' :: real
  sn_mva_' :: real
  bus_vn_kv_' :: "real list"
  bus_status_' :: "bool list"
  refs_' :: bus_refs
  powerlines_' :: 'l
  shunts_' :: 's
  trafos_' :: 't
  generators_' :: DataGen
  loads_' :: DataLoad
  sgens_' :: 'sg
  storages_' :: DataLoad
  gen_slackbus_' :: int
  slack_bus_id_' :: int
  bus_pv_' :: "int list"
  bus_pq_' :: "int list"
  solver :: ChooseSolver

subsection \<open>GridModel.cpp\<close>

text \<open>\<^verbatim>\<open>GridModel::reset\<close>, lines 146 to 159.\<close>

definition reset :: "('l, 's, 't, 'sg) GridModel \<Rightarrow> ('l, 's, 't, 'sg) GridModel" where
  "reset g = g\<lparr>refs_' := reset_refs, bus_pv_' := [], bus_pq_' := [], need_reset_' := True,
               solver := solver_reset (solver g)\<rparr>"

text \<open>
  \<^verbatim>\<open>GridModel::get_state\<close>, lines 63 to 82: the eight components that the function builds.
  Modelled from the spec: the states of the collections, "the element collection's own
  serialization (opaque to the facade)", taken as lossless: the state of a collection is the
  collection, and its \<^verbatim>\<open>set_state\<close> puts it back.
\<close>

type_synonym ('l, 's, 't) StateRes =
  "real list \<times> bool list \<times> 'l \<times> 's \<times> 't \<times> DataGen \<times> DataLoad \<times> int"

definition get_state :: "('l, 's, 't, 'sg) GridModel \<Rightarrow> ('l, 's, 't) StateRes" where
  "get_state g =
     (bus_vn_kv_' g, bus_status_' g, powerlines_' g, shunts_' g, trafos_' g, generators_' g, loads_' g,
      gen_slackbus_' g)"

text \<open>\<^verbatim>\<open>GridModel::set_state\<close>, lines 84 to 131.\<close>

definition set_state ::
  "('l, 's, 't) StateRes \<Rightarrow> ('l, 's, 't, 'sg) GridModel \<Rightarrow> ('l, 's, 't, 'sg) GridModel" where
  "set_state my_state g =
     (case my_state of
        (bus_vn_kv, bus_status, state_lines, state_shunts, state_trafos, state_gens, state_loads,
         gen_slackbus) \<Rightarrow>
          (reset g)\<lparr>need_reset_' := True, compute_results_' := True,
                    bus_vn_kv_' := bus_vn_kv, bus_status_' := bus_status,
                    powerlines_' := state_lines, shunts_' := state_shunts, trafos_' := state_trafos,
                    generators_' := state_gens, loads_' := state_loads,
                    gen_slackbus_' := gen_slackbus\<rparr>)"

text \<open>
  One turn of the loop of \<^verbatim>\<open>init_Ybus\<close> (lines 250 to 257) on the triple
  \<^verbatim>\<open>(id_me_to_solver, id_solver_to_me, bus_id_solver)\<close>.
\<close>

definition init_Ybus_step ::
  "bool list \<Rightarrow> nat \<Rightarrow> int list \<times> int list \<times> int \<Rightarrow> int list \<times> int list \<times> int" where
  "init_Ybus_step bus_status bus_id_me acc =
     (case acc of (me_to_solver, solver_to_me, bus_id_solver) \<Rightarrow>
        if bus_status ! bus_id_me
        then (me_to_solver[bus_id_me := bus_id_solver],
              solver_to_me @ [int bus_id_me],
              bus_id_solver + 1)
        else (me_to_solver, solver_to_me, bus_id_solver))"

text \<open>Lines 245 to 257: the two conversion vectors for \<open>nb_bus_init\<close> buses.\<close>

definition init_Ybus_maps :: "nat \<Rightarrow> bool list \<Rightarrow> int list \<times> int list \<times> int" where
  "init_Ybus_maps nb_bus_init bus_status =
     fold (init_Ybus_step bus_status) [0..<nb_bus_init]
          (replicate nb_bus_init deactivated_bus_id, [], 0)"

text \<open>
  \<^verbatim>\<open>GridModel::init_Ybus\<close>, lines 238 to 269, on the members it reads: \<^verbatim>\<open>bus_vn_kv_.size()\<close>,
  \<^verbatim>\<open>bus_status_\<close> and \<^verbatim>\<open>slack_bus_id_\<close>. The two \<^verbatim>\<open>reserve\<close> calls change no value. A
  \<^verbatim>\<open>bus_status_\<close> shorter than \<^verbatim>\<open>bus_vn_kv_\<close> and a \<^verbatim>\<open>slack_bus_id_\<close> outside \<^verbatim>\<open>id_me_to_solver\<close>
  are unchecked reads in the source.
\<close>

definition init_Ybus :: "nat \<Rightarrow> bool list \<Rightarrow> int \<Rightarrow> bus_refs \<Rightarrow> unit outcome \<times> bus_refs" where
  "init_Ybus nb_bus_init bus_status slack_bus_id r =
     (if length bus_status < nb_bus_init then (Throws OutOfRange, r)
      else
        case init_Ybus_maps nb_bus_init bus_status of (me_to_solver, solver_to_me, _) \<Rightarrow>
          let nb_bus = length solver_to_me;
              r1 = r\<lparr>Ybus := empty_matrix nb_bus nb_bus,
                     Sbus := replicate nb_bus 0,
                     id_me_to_solver := me_to_solver,
                     id_solver_to_me := solver_to_me\<rparr>
          in if slack_bus_id < 0 \<or> int (length me_to_solver) \<le> slack_bus_id
             then (Throws OutOfRange, r1)
             else
               let r2 = r1\<lparr>slack_bus_id_solver := me_to_solver ! nat slack_bus_id\<rparr>
               in if slack_bus_id_solver r2 = deactivated_bus_id
                  then (Throws SlackDisconnected, r2)
                  else (Returns (), r2))"

text \<open>
  \<^verbatim>\<open>GridModel::fillYbus\<close>, lines 271 to 287. The triplets are a local: when a collection
  throws, \<open>res\<close> is as it was.
\<close>

definition fillYbus ::
  "('l, 's, 't) collaborators \<Rightarrow> ('l, 's, 't, 'sg) GridModel \<Rightarrow> complex SparseMatrix \<Rightarrow> bool \<Rightarrow> int list
     \<Rightarrow> unit outcome \<times> complex SparseMatrix" where
  "fillYbus env g res ac me_to_solver =
     (case
        bind_outcome (fillYbus_of (line_ops env) (powerlines_' g) [] ac me_to_solver) (\<lambda>t1.
        bind_outcome (fillYbus_of (shunt_ops env) (shunts_' g) t1 ac me_to_solver) (\<lambda>t2.
        bind_outcome (fillYbus_of (trafo_ops env) (trafos_' g) t2 ac me_to_solver) (\<lambda>t3.
        bind_outcome (fillYbus_of (load_ops env) (loads_' g) t3 ac me_to_solver) (\<lambda>t4.
        gen_fillYbus env (generators_' g) t4 ac me_to_solver))))
      of Throws e \<Rightarrow> (Throws e, res)
       | Returns tripletList \<Rightarrow> (Returns (), res\<lparr>entries := tripletList\<rparr>))"

text \<open>
  \<^verbatim>\<open>GridModel::fillSbus_me\<close>, lines 289 to 301: the five stamps of lines 292 to 296, then the
  correction at the slack bus of lines 299 and 300. \<^verbatim>\<open>res.sum().real()\<close> is the real part of
  the sum that Eigen computes; \<^verbatim>\<open>-=\<close> with a \<^verbatim>\<open>double\<close> on the right replaces the real part of
  the entry by the rounded difference and leaves its imaginary part; \<^verbatim>\<open>coeffRef\<close> does not
  check its index.
\<close>

definition fillSbus_stamps ::
  "('l, 's, 't) collaborators \<Rightarrow> ('l, 's, 't, 'sg) GridModel \<Rightarrow> complex list \<Rightarrow> bool \<Rightarrow> int list
     \<Rightarrow> unit outcome \<times> complex list" where
  "fillSbus_stamps env g res ac me_to_solver =
     and_then (and_then (and_then (and_then
       (fillSbus_of (line_ops env) (powerlines_' g) res ac me_to_solver)
       (\<lambda>res. fillSbus_of (shunt_ops env) (shunts_' g) res ac me_to_solver))
       (\<lambda>res. fillSbus_of (trafo_ops env) (trafos_' g) res ac me_to_solver))
       (\<lambda>res. fillSbus_of (load_ops env) (loads_' g) res ac me_to_solver))
       (\<lambda>res. gen_fillSbus (rnd (arith env)) (gens (generators_' g)) res ac me_to_solver)"

definition slack_correction ::
  "(real \<Rightarrow> real) \<Rightarrow> complex list \<Rightarrow> int \<Rightarrow> unit outcome \<times> complex list" where
  "slack_correction r res slack =
     (let sum_active = Re (dsum r res)
      in if 0 \<le> slack \<and> slack < int (length res)
         then (Returns (),
               res[nat slack := Complex (r (Re (res ! nat slack) - sum_active)) (Im (res ! nat slack))])
         else (Throws OutOfRange, res))"

definition fillSbus_me ::
  "('l, 's, 't) collaborators \<Rightarrow> ('l, 's, 't, 'sg) GridModel \<Rightarrow> complex list \<Rightarrow> bool \<Rightarrow> int list \<Rightarrow> int
     \<Rightarrow> unit outcome \<times> complex list" where
  "fillSbus_me env g res ac me_to_solver slack =
     and_then (fillSbus_stamps env g res ac me_to_solver)
       (\<lambda>res. slack_correction (rnd (arith env)) res slack)"

text \<open>One turn of the loop of \<^verbatim>\<open>fillpv_pq\<close> (lines 320 to 325) on \<^verbatim>\<open>(bus_pq, has_bus_been_added)\<close>.\<close>

definition fillpv_pq_step :: "int \<Rightarrow> nat \<Rightarrow> int list \<times> bool list \<Rightarrow> int list \<times> bool list" where
  "fillpv_pq_step slack bus_id acc =
     (case acc of (bus_pq, added) \<Rightarrow>
        if int bus_id = slack then (bus_pq, added)
        else if added ! bus_id then (bus_pq, added)
        else (bus_pq @ [int bus_id], added[bus_id := True]))"

text \<open>
  \<^verbatim>\<open>GridModel::fillpv_pq\<close>, lines 303 to 328. Modelled from the spec: of the five calls of
  lines 314 to 318 only the generators classify ("for generators, mark their bus as PV");
  the \<^verbatim>\<open>fillpv\<close> of lines, shunts, transformers and loads changes nothing.
\<close>

definition fillpv_pq :: "int list \<Rightarrow> ('l, 's, 't, 'sg) GridModel \<Rightarrow> unit outcome \<times> ('l, 's, 't, 'sg) GridModel" where
  "fillpv_pq me_to_solver g =
     (let nb_bus = length (id_solver_to_me (refs_' g));
          g1 = g\<lparr>bus_pv_' := [], bus_pq_' := []\<rparr>
      in case gen_fillpv (gens (generators_' g1)) ([], replicate nb_bus False)
                (slack_bus_id_solver (refs_' g1)) me_to_solver of
           (Throws e, _) \<Rightarrow> (Throws e, g1)
         | (Returns _, bus_pv, added) \<Rightarrow>
             (case fold (fillpv_pq_step (slack_bus_id_solver (refs_' g1))) [0..<nb_bus] ([], added) of
                (bus_pq, _) \<Rightarrow> (Returns (), g1\<lparr>bus_pv_' := bus_pv, bus_pq_' := bus_pq\<rparr>)))"

text \<open>Lines 200 to 207 of \<^verbatim>\<open>pre_process_solver\<close>: the entries of \<open>Vinit\<close> at the connected buses.\<close>

fun gather :: "complex list \<Rightarrow> int list \<Rightarrow> complex list outcome" where
  "gather Vinit [] = Returns []"
| "gather Vinit (bus_me_id # rest) =
     bind_outcome (read_at Vinit bus_me_id) (\<lambda>tmp.
     bind_outcome (gather Vinit rest) (\<lambda>V. Returns (tmp # V)))"

text \<open>\<^verbatim>\<open>GridModel::pre_process_solver\<close>, lines 186 to 210.\<close>

definition pre_process_solver ::
  "('l, 's, 't) collaborators \<Rightarrow> complex list \<Rightarrow> bool \<Rightarrow> ('l, 's, 't, 'sg) GridModel
     \<Rightarrow> complex list outcome \<times> ('l, 's, 't, 'sg) GridModel" where
  "pre_process_solver env Vinit is_ac g =
     (let g1 = reset g in
      case get_slack_bus_id (generators_' g1) (gen_slackbus_' g1) of
        Throws e \<Rightarrow> (Throws e, g1)
      | Returns slack \<Rightarrow>
      let g2 = g1\<lparr>slack_bus_id_' := slack\<rparr> in
      case init_Ybus (length (bus_vn_kv_' g2)) (bus_status_' g2) (slack_bus_id_' g2) (refs_' g2) of
        (Throws e, r) \<Rightarrow> (Throws e, g2\<lparr>refs_' := r\<rparr>)
      | (Returns _, r) \<Rightarrow>
      let g3 = g2\<lparr>refs_' := r\<rparr> in
      case fillYbus env g3 (Ybus (refs_' g3)) is_ac (id_me_to_solver (refs_' g3)) of
        (Throws e, Y) \<Rightarrow> (Throws e, g3\<lparr>refs_' := (refs_' g3)\<lparr>Ybus := Y\<rparr>\<rparr>)
      | (Returns _, Y) \<Rightarrow>
      let g4 = g3\<lparr>refs_' := (refs_' g3)\<lparr>Ybus := Y\<rparr>\<rparr> in
      case fillpv_pq (id_me_to_solver (refs_' g4)) g4 of
        (Throws e, g5) \<Rightarrow> (Throws e, g5)
      | (Returns _, g5) \<Rightarrow>
      let g6 = g5\<lparr>generators_' := gen_init_q_vector env (generators_' g5) (length (bus_vn_kv_' g5))\<rparr> in
      case fillSbus_me env g6 (Sbus (refs_' g6)) is_ac (id_me_to_solver (refs_' g6))
             (slack_bus_id_solver (refs_' g6)) of
        (Throws e, S) \<Rightarrow> (Throws e, g6\<lparr>refs_' := (refs_' g6)\<lparr>Sbus := S\<rparr>\<rparr>)
      | (Returns _, S) \<Rightarrow>
      let g7 = g6\<lparr>refs_' := (refs_' g6)\<lparr>Sbus := S\<rparr>\<rparr> in
      case gather Vinit (id_solver_to_me (refs_' g7)) of
        Throws e \<Rightarrow> (Throws e, g7)
      | Returns V \<Rightarrow>
      case gen_set_vm env (generators_' g7) V (id_me_to_solver (refs_' g7)) of
        (Throws e, _) \<Rightarrow> (Throws e, g7)
      | (Returns _, V') \<Rightarrow> (Returns V', g7))"

text \<open>\<^verbatim>\<open>GridModel::compute_results\<close>, lines 329 to 362.\<close>

definition compute_results ::
  "('l, 's, 't) collaborators \<Rightarrow> ('l, 's, 't, 'sg) GridModel \<Rightarrow> ('l, 's, 't, 'sg) GridModel" where
  "compute_results env g =
     (let Va = solver_Va (solver g); Vm = solver_Vm (solver g); V = get_V (solver g);
          me = id_me_to_solver (refs_' g); kv = bus_vn_kv_' g;
          lines = compute_results_of (line_ops env) (powerlines_' g) Va Vm V me kv;
          trafos = compute_results_of (trafo_ops env) (trafos_' g) Va Vm V me kv;
          lds = compute_results_of (load_ops env) (loads_' g) Va Vm V me kv;
          shunts = compute_results_of (shunt_ops env) (shunts_' g) Va Vm V me kv;
          gs = gen_compute_results env (generators_' g) Va Vm V me kv;
          p_slack = rnd (arith env) (rnd (arith env) (rnd (arith env)
                     (get_p_slack_of (line_ops env) lines (slack_bus_id_' g)
                      + get_p_slack_of (trafo_ops env) trafos (slack_bus_id_' g))
                      + get_p_slack_of (load_ops env) lds (slack_bus_id_' g))
                      + get_p_slack_of (shunt_ops env) shunts (slack_bus_id_' g));
          gs1 = gen_set_p_slack env gs (gen_slackbus_' g) p_slack;
          q_by_bus = get_q_of (shunt_ops env) shunts
                       (get_q_of (load_ops env) lds
                         (get_q_of (trafo_ops env) trafos
                           (get_q_of (line_ops env) lines (replicate (length kv) 0))))
      in g\<lparr>powerlines_' := lines, trafos_' := trafos, loads_' := lds, shunts_' := shunts,
            generators_' := gen_set_q env gs1 q_by_bus\<rparr>)"

text \<open>\<^verbatim>\<open>GridModel::reset_results\<close>, lines 364 to 370.\<close>

definition reset_results ::
  "('l, 's, 't) collaborators \<Rightarrow> ('l, 's, 't, 'sg) GridModel \<Rightarrow> ('l, 's, 't, 'sg) GridModel" where
  "reset_results env g =
     g\<lparr>powerlines_' := reset_results_of (line_ops env) (powerlines_' g),
       shunts_' := reset_results_of (shunt_ops env) (shunts_' g),
       trafos_' := reset_results_of (trafo_ops env) (trafos_' g),
       loads_' := reset_results_of (load_ops env) (loads_' g),
       generators_' := gen_reset_results env (generators_' g)\<rparr>"

text \<open>
  Lines 223 to 231 of \<^verbatim>\<open>process_results\<close>: the solver's voltages at the external ids of the
  connected buses.
\<close>

fun results_to_me :: "bool list \<Rightarrow> int list \<Rightarrow> complex list \<Rightarrow> nat list \<Rightarrow> complex list \<Rightarrow> complex list outcome" where
  "results_to_me bus_status me_to_solver res_tmp [] res = Returns res"
| "results_to_me bus_status me_to_solver res_tmp (bus_id_me # rest) res =
     bind_outcome (read_at bus_status (int bus_id_me)) (\<lambda>connected.
       if \<not> connected then results_to_me bus_status me_to_solver res_tmp rest res
       else
         bind_outcome (read_at me_to_solver (int bus_id_me)) (\<lambda>bus_id_solver.
           if bus_id_solver = deactivated_bus_id then Throws BusNotInSolver
           else
             bind_outcome (read_at res_tmp bus_id_solver) (\<lambda>v.
               if bus_id_me < length res
               then results_to_me bus_status me_to_solver res_tmp rest (res[bus_id_me := v])
               else Throws OutOfRange)))"

text \<open>\<^verbatim>\<open>GridModel::process_results\<close>, lines 211 to 237. \<open>res\<close> is the caller's local.\<close>

definition process_results ::
  "('l, 's, 't) collaborators \<Rightarrow> bool \<Rightarrow> complex list \<Rightarrow> complex list \<Rightarrow> ('l, 's, 't, 'sg) GridModel
     \<Rightarrow> complex list outcome \<times> ('l, 's, 't, 'sg) GridModel" where
  "process_results env conv res Vinit g =
     (if conv then
        let g1 = (if compute_results_' g then compute_results env g else g);
            g2 = g1\<lparr>need_reset_' := False\<rparr>;
            res_tmp = get_V (solver g2);
            nb_bus = length (bus_vn_kv_' g2)
        in (results_to_me (bus_status_' g2) (id_me_to_solver (refs_' g2)) res_tmp [0..<nb_bus]
              (replicate (length Vinit) 0), g2)
      else (Returns res, (reset_results env g)\<lparr>need_reset_' := True\<rparr>))"

text \<open>\<^verbatim>\<open>GridModel::ac_pf\<close>, lines 161 to 184.\<close>

definition ac_pf ::
  "('l, 's, 't) collaborators \<Rightarrow> complex list \<Rightarrow> int \<Rightarrow> real \<Rightarrow> ('l, 's, 't, 'sg) GridModel
     \<Rightarrow> complex list outcome \<times> ('l, 's, 't, 'sg) GridModel" where
  "ac_pf env Vinit max_iter tol g =
     (if length Vinit \<noteq> length (bus_vn_kv_' g) then (Throws InputSizeMismatch, g)
      else
        case pre_process_solver env Vinit True g of
          (Throws e, g1) \<Rightarrow> (Throws e, g1)
        | (Returns V, g1) \<Rightarrow>
            (case compute_pf env (solver g1) (Ybus (refs_' g1)) V (Sbus (refs_' g1))
                    (bus_pv_' g1) (bus_pq_' g1) max_iter tol of
               (conv, sv) \<Rightarrow> process_results env conv [] Vinit (g1\<lparr>solver := sv\<rparr>)))"

text \<open>\<^verbatim>\<open>GridModel::dc_pf\<close>, lines 498 to 529; \<open>saved_type\<close> is the local \<^verbatim>\<open>solver_type\<close>.\<close>

definition dc_pf ::
  "('l, 's, 't) collaborators \<Rightarrow> complex list \<Rightarrow> int \<Rightarrow> real \<Rightarrow> ('l, 's, 't, 'sg) GridModel
     \<Rightarrow> complex list outcome \<times> ('l, 's, 't, 'sg) GridModel" where
  "dc_pf env Vinit max_iter tol g =
     (if length Vinit \<noteq> length (bus_vn_kv_' g) then (Throws InputSizeMismatch, g)
      else
        let saved_type = get_type (solver g);
            g0 = g\<lparr>solver := change_solver DC (solver g)\<rparr>
        in case pre_process_solver env Vinit False g0 of
          (Throws e, g1) \<Rightarrow> (Throws e, g1)
        | (Returns V, g1) \<Rightarrow>
            (case compute_pf env (solver g1) (Ybus (refs_' g1)) V (Sbus (refs_' g1))
                    (bus_pv_' g1) (bus_pq_' g1) max_iter tol of
               (conv, sv) \<Rightarrow>
                 (case process_results env conv [] Vinit (g1\<lparr>solver := sv\<rparr>) of
                    (Throws e, g2) \<Rightarrow> (Throws e, g2)
                  | (Returns res, g2) \<Rightarrow>
                      (Returns res, g2\<lparr>solver := change_solver saved_type (solver g2)\<rparr>))))"

text \<open>\<^verbatim>\<open>GridModel::get_solver_type\<close>, GridModel.h line 81.\<close>

definition get_solver_type :: "('l, 's, 't, 'sg) GridModel \<Rightarrow> SolverType" where
  "get_solver_type g = get_type (solver g)"

text \<open>\<^verbatim>\<open>GridModel::nb_bus\<close>, lines 534 to 542.\<close>

definition nb_bus :: "('l, 's, 't, 'sg) GridModel \<Rightarrow> int" where
  "nb_bus g = fold (\<lambda>el res. if el then res + 1 else res) (bus_status_' g) 0"

text \<open>\<^verbatim>\<open>GridModel::add_gen_slackbus\<close>, lines 544 to 548.\<close>

definition add_gen_slackbus ::
  "int \<Rightarrow> ('l, 's, 't, 'sg) GridModel \<Rightarrow> unit outcome \<times> ('l, 's, 't, 'sg) GridModel" where
  "add_gen_slackbus gen_id g =
     (if gen_id < 0 then (Throws SlackInvalid, g)
      else if gen_id > nb (generators_' g) then (Throws SlackInvalid, g)
      else (Returns (), g\<lparr>gen_slackbus_' := gen_id\<rparr>))"

text \<open>\<^verbatim>\<open>GridModel::change_p_storage\<close>, GridModel.h lines 246 to 257: the one statement that is not
  commented out.\<close>

definition change_p_storage ::
  "int \<Rightarrow> real \<Rightarrow> ('l, 's, 't, 'sg) GridModel \<Rightarrow> unit outcome \<times> ('l, 's, 't, 'sg) GridModel" where
  "change_p_storage storage_id new_p g =
     (case change_p storage_id new_p (storages_' g, need_reset_' g) of
        (out, c, need_reset) \<Rightarrow> (out, g\<lparr>storages_' := c, need_reset_' := need_reset\<rparr>))"

subsection \<open>dc_pf_old\<close>

text \<open>Lines 417, 419, 440 and 465: \<^verbatim>\<open>x > slack_bus_id_solver ? x - 1 : x\<close>.\<close>

definition shift_slack :: "int \<Rightarrow> int \<Rightarrow> int" where
  "shift_slack slack x = (if x > slack then x - 1 else x)"

text \<open>
  Lines 408 to 424: the real parts of the entries of \<open>dcYbus_tmp\<close> outside the row and the
  column of the slack bus. The source visits the entries column by column; the matrix is
  the same in any order.
\<close>

definition dc_Ybus :: "complex SparseMatrix \<Rightarrow> nat \<Rightarrow> int \<Rightarrow> real SparseMatrix" where
  "dc_Ybus dcYbus_tmp nb_bus_solver slack =
     \<lparr>rows = nb_bus_solver - 1, cols = nb_bus_solver - 1,
      entries =
        map (\<lambda>(row, col, v). (shift_slack slack row, shift_slack slack col, Re v))
          (filter (\<lambda>(row, col, v). 0 \<le> col \<and> col < int nb_bus_solver \<and> col \<noteq> slack \<and> row \<noteq> slack)
             (entries dcYbus_tmp))\<rparr>"

text \<open>Lines 436 to 442: \<open>Sbus_tmp\<close> without the entry of the slack bus.\<close>

fun dc_Sbus :: "complex list \<Rightarrow> int \<Rightarrow> nat list \<Rightarrow> real list \<Rightarrow> real list outcome" where
  "dc_Sbus Sbus_tmp slack [] Sbus_dc = Returns Sbus_dc"
| "dc_Sbus Sbus_tmp slack (k # ks) Sbus_dc =
     (if int k = slack then dc_Sbus Sbus_tmp slack ks Sbus_dc
      else
        bind_outcome (read_at Sbus_tmp (int k)) (\<lambda>s.
          let col_res = shift_slack slack (int k)
          in if 0 \<le> col_res \<and> col_res < int (length Sbus_dc)
             then dc_Sbus Sbus_tmp slack ks (Sbus_dc[nat col_res := Re s])
             else Throws OutOfRange))"

text \<open>Lines 456 to 467: the angles of the connected buses other than the slack bus.\<close>

fun dc_fill_Va ::
  "int \<Rightarrow> bool list \<Rightarrow> int list \<Rightarrow> int \<Rightarrow> real list \<Rightarrow> nat list \<Rightarrow> real list \<Rightarrow> real list outcome" where
  "dc_fill_Va slack_bus_id bus_status me_to_solver slack Va_dc [] Va = Returns Va"
| "dc_fill_Va slack_bus_id bus_status me_to_solver slack Va_dc (bus_id_me # rest) Va =
     (if int bus_id_me = slack_bus_id
      then dc_fill_Va slack_bus_id bus_status me_to_solver slack Va_dc rest Va
      else
        bind_outcome (read_at bus_status (int bus_id_me)) (\<lambda>connected.
          if \<not> connected then dc_fill_Va slack_bus_id bus_status me_to_solver slack Va_dc rest Va
          else
            bind_outcome (read_at me_to_solver (int bus_id_me)) (\<lambda>bus_id_solver.
              if bus_id_solver = deactivated_bus_id then Throws BusNotInSolver
              else
                bind_outcome (read_at Va_dc (shift_slack slack bus_id_solver)) (\<lambda>a.
                  if bus_id_me < length Va
                  then dc_fill_Va slack_bus_id bus_status me_to_solver slack Va_dc rest
                         (Va[bus_id_me := a])
                  else Throws OutOfRange))))"

text \<open>Lines 485 to 489: 1 at every bus, then 0 at the disconnected buses.\<close>

definition dc_Vm_init :: "nat \<Rightarrow> nat \<Rightarrow> bool list \<Rightarrow> real list" where
  "dc_Vm_init size_Vinit nb_bus_me bus_status =
     fold (\<lambda>bus_id_me Vm. if bus_status ! bus_id_me then Vm else Vm[bus_id_me := 0])
       [0..<nb_bus_me] (replicate size_Vinit 1)"

text \<open>
  Line 495: \<^verbatim>\<open>Vm * (cos(Va) + my_i * sin(Va))\<close>, entry by entry. The cosine and the sine are
  doubles cast to \<^verbatim>\<open>cdouble\<close>; the product with \<^verbatim>\<open>my_i\<close> moves the sine to the imaginary part,
  and the sum joins the two parts: neither rounds. The product with the double \<^verbatim>\<open>Vm\<close>
  multiplies each part and rounds it.
\<close>

definition polar :: "double_ops \<Rightarrow> real \<Rightarrow> real \<Rightarrow> complex" where
  "polar ops vm va = Complex (rnd ops (vm * lib_cos ops va)) (rnd ops (vm * lib_sin ops va))"

text \<open>
  \<^verbatim>\<open>GridModel::dc_pf_old\<close>, lines 372 to 496, after the size check and the write of
  \<^verbatim>\<open>slack_bus_id_\<close>: the function changes no other member. The locals of lines 383 to 387
  start as \<open>reset_refs\<close>. The empty vector is what the source returns when the LU fails. Line
  468 adds \<^verbatim>\<open>std::arg(Vinit(slack_bus_id_))\<close> to every angle.
\<close>

definition dc_pf_old_solve ::
  "('l, 's, 't) collaborators \<Rightarrow> complex list \<Rightarrow> ('l, 's, 't, 'sg) GridModel \<Rightarrow> complex list outcome" where
  "dc_pf_old_solve env Vinit g =
     (case init_Ybus (length (bus_vn_kv_' g)) (bus_status_' g) (slack_bus_id_' g) reset_refs of
        (Throws e, _) \<Rightarrow> Throws e
      | (Returns _, r) \<Rightarrow>
      case fillYbus env g (Ybus r) False (id_me_to_solver r) of
        (Throws e, _) \<Rightarrow> Throws e
      | (Returns _, dcYbus_tmp) \<Rightarrow>
      case fillSbus_me env g (Sbus r) False (id_me_to_solver r) (slack_bus_id_solver r) of
        (Throws e, _) \<Rightarrow> Throws e
      | (Returns _, Sbus_tmp) \<Rightarrow>
      let nb_bus_solver = length (id_solver_to_me r);
          dcYbus = dc_Ybus dcYbus_tmp nb_bus_solver (slack_bus_id_solver r)
      in if \<not> lu_factorize env dcYbus then Returns []
      else
      case dc_Sbus Sbus_tmp (slack_bus_id_solver r) [0..<nb_bus_solver]
             (replicate (nb_bus_solver - 1) 0) of
        Throws e \<Rightarrow> Throws e
      | Returns Sbus_dc \<Rightarrow>
      case lu_solve env dcYbus Sbus_dc of
        None \<Rightarrow> Returns []
      | Some Va_dc \<Rightarrow>
      let nb_bus_me = length (bus_vn_kv_' g) in
      case dc_fill_Va (slack_bus_id_' g) (bus_status_' g) (id_me_to_solver r) (slack_bus_id_solver r)
             Va_dc [0..<nb_bus_me] (replicate nb_bus_me 0) of
        Throws e \<Rightarrow> Throws e
      | Returns Va0 \<Rightarrow>
      case read_at Vinit (slack_bus_id_' g) of
        Throws e \<Rightarrow> Throws e
      | Returns v_slack \<Rightarrow>
      let Va = map (\<lambda>a. rnd (arith env) (a + lib_arg (arith env) v_slack)) Va0 in
      case get_vm_for_dc (gens (generators_' g)) (dc_Vm_init (length Vinit) nb_bus_me (bus_status_' g)) of
        (Throws e, _) \<Rightarrow> Throws e
      | (Returns _, Vm) \<Rightarrow> Returns (map2 (polar (arith env)) Vm Va))"

definition dc_pf_old ::
  "('l, 's, 't) collaborators \<Rightarrow> complex list \<Rightarrow> int \<Rightarrow> real \<Rightarrow> ('l, 's, 't, 'sg) GridModel
     \<Rightarrow> complex list outcome \<times> ('l, 's, 't, 'sg) GridModel" where
  "dc_pf_old env Vinit max_iter tol g =
     (if length Vinit \<noteq> length (bus_vn_kv_' g) then (Throws InputSizeMismatch, g)
      else
        case get_slack_bus_id (generators_' g) (gen_slackbus_' g) of
          Throws e \<Rightarrow> (Throws e, g)
        | Returns slack \<Rightarrow>
            let g1 = g\<lparr>slack_bus_id_' := slack\<rparr>
            in (dc_pf_old_solve env Vinit g1, g1))"

subsection \<open>A grid and collaborators to compute with\<close>

text \<open>Arithmetic that rounds nothing, with the cosine, the sine and the argument themselves.\<close>

definition exact_ops :: double_ops where
  "exact_ops = \<lparr>rnd = (\<lambda>x. x), lib_cos = cos, lib_sin = sin, lib_arg = Arg\<rparr>"

declare exact_ops_def [code del]

text \<open>
  IEEE 754 double precision, rounding to nearest, ties to even: a real \<open>x\<close> other than 0 with
  \<open>2^e \<le> |x| < 2^(e+1)\<close> is rounded to a multiple of \<open>2^(e-52)\<close>, of \<open>2^(-1074)\<close> when \<open>e < -1022\<close>
  (subnormal numbers). The overflow above the largest double is not modelled.
\<close>

definition round_even :: "real \<Rightarrow> int" where
  "round_even x =
     (let n = \<lfloor>x\<rfloor>; frac = x - of_int n
      in if frac < 1 / 2 then n else if 1 / 2 < frac then n + 1 else if even n then n else n + 1)"

definition pow2 :: "int \<Rightarrow> real" where
  "pow2 e = (if 0 \<le> e then 2 ^ nat e else 1 / 2 ^ nat (- e))"

definition binary64 :: "real \<Rightarrow> real" where
  "binary64 x =
     (if x = 0 then 0
      else let e = max \<lfloor>log 2 \<bar>x\<bar>\<rfloor> (- 1022); ulp = pow2 (e - 52)
           in of_int (round_even (x / ulp)) * ulp)"

text \<open>The arithmetic of a \<^verbatim>\<open>double\<close>, with a C library that rounds correctly.\<close>

definition ieee_ops :: double_ops where
  "ieee_ops = \<lparr>rnd = binary64, lib_cos = (\<lambda>x. binary64 (cos x)), lib_sin = (\<lambda>x. binary64 (sin x)),
                lib_arg = (\<lambda>z. binary64 (Arg z))\<rparr>"

text \<open>Collaborators that stamp nothing and project nothing; the solver answers \<open>conv\<close> and
  leaves the voltages as they come; the LU succeeds with angles 0; the arithmetic is exact.\<close>

definition idle_ops :: "'c element_ops" where
  "idle_ops =
     \<lparr>fillYbus_of = (\<lambda>c t ac m. Returns t),
      fillSbus_of = (\<lambda>c res ac m. (Returns (), res)),
      compute_results_of = (\<lambda>c Va Vm V m kv. c),
      reset_results_of = (\<lambda>c. c),
      get_p_slack_of = (\<lambda>c b. 0),
      get_q_of = (\<lambda>c q. q)\<rparr>"

definition idle_env :: "bool \<Rightarrow> (unit, unit, unit) collaborators" where
  "idle_env conv =
     \<lparr>line_ops = idle_ops, shunt_ops = idle_ops, trafo_ops = idle_ops, load_ops = idle_ops,
      gen_fillYbus = (\<lambda>c t ac m. Returns t),
      gen_compute_results = (\<lambda>c Va Vm V m kv. c),
      gen_reset_results = (\<lambda>c. c),
      gen_init_q_vector = (\<lambda>c n. c),
      gen_set_vm = (\<lambda>c V m. (Returns (), V)),
      gen_set_p_slack = (\<lambda>c i p. c),
      gen_set_q = (\<lambda>c q. c),
      solver_compute_pf = (\<lambda>sv Y V S pv pq max_iter tol. (conv, V, [], [])),
      lu_factorize = (\<lambda>Y. True),
      lu_solve = (\<lambda>Y S. Some (replicate (length S) 0)),
      arith = exact_ops\<rparr>"

text \<open>
  The two-bus grid of the spec's first scenario: buses of 138 kV, a generator at bus 0 with
  setpoint 1.02, the slack, and a load of 50 MW and 20 MVAr at bus 1, to which a storage
  unit of 5 MW at bus 1 is added; built by the constructor of GridModel.h line 68,
  \<^verbatim>\<open>init_bus\<close>, \<^verbatim>\<open>init_generators\<close>, \<^verbatim>\<open>init_loads\<close>, \<^verbatim>\<open>init_storages\<close> and
  \<^verbatim>\<open>add_gen_slackbus(0)\<close>.
\<close>

definition two_bus :: "(unit, unit, unit, unit) GridModel" where
  "two_bus =
     \<lparr>need_reset_' = True, compute_results_' = True, init_vm_pu_' = 1.04, sn_mva_' = 1,
      bus_vn_kv_' = [138, 138], bus_status_' = [True, True], refs_' = reset_refs,
      powerlines_' = (), shunts_' = (), trafos_' = (),
      generators_' = \<lparr>gens = [\<lparr>gen_bus = 0, gen_p = 0, gen_v = 1.02, gen_q_min = - 10,
                                 gen_q_max = 10, gen_status = True\<rparr>],
                      gens_res = ([], [], [])\<rparr>,
      loads_' = \<lparr>loads = [\<lparr>load_bus = 1, load_p = 50, load_q = 20, load_status = True\<rparr>],
                 loads_res = ([], [], [])\<rparr>,
      sgens_' = (),
      storages_' = \<lparr>loads = [\<lparr>load_bus = 1, load_p = 5, load_q = 0, load_status = True\<rparr>],
                    loads_res = ([], [], [])\<rparr>,
      gen_slackbus_' = 0, slack_bus_id_' = 0, bus_pv_' = [], bus_pq_' = [],
      solver = \<lparr>solver_type = AC 0, solver_V = [], solver_Va = [], solver_Vm = []\<rparr>\<rparr>"

text \<open>The same grid after \<^verbatim>\<open>deactivate_bus(0)\<close>: the bus of the slack generator is disconnected.\<close>

definition slack_off :: "(unit, unit, unit, unit) GridModel" where
  "slack_off = two_bus\<lparr>bus_status_' := [False, True]\<rparr>"

text \<open>
  Three connected buses as \<^verbatim>\<open>init_Ybus\<close> leaves them, with the slack generator at bus 0 and a
  second generator, with setpoint 1.05, at bus 1.
\<close>

definition three_bus :: "(unit, unit, unit, unit) GridModel" where
  "three_bus =
     two_bus\<lparr>bus_vn_kv_' := [138, 138, 138], bus_status_' := [True, True, True],
             refs_' := reset_refs\<lparr>Ybus := empty_matrix 3 3, Sbus := [0, 0, 0],
                         id_me_to_solver := [0, 1, 2], id_solver_to_me := [0, 1, 2],
                         slack_bus_id_solver := 0\<rparr>,
             generators_' :=
               \<lparr>gens = [\<lparr>gen_bus = 0, gen_p = 0, gen_v = 1.02, gen_q_min = - 10,
                                 gen_q_max = 10, gen_status = True\<rparr>,
                        \<lparr>gen_bus = 1, gen_p = 40, gen_v = 1.05, gen_q_min = - 10,
                                 gen_q_max = 10, gen_status = True\<rparr>],
                gens_res = ([], [], [])\<rparr>\<rparr>"

text \<open>The three buses with bus 2 disconnected.\<close>

definition bus2_off :: "(unit, unit, unit, unit) GridModel" where
  "bus2_off = three_bus\<lparr>bus_status_' := [True, True, False]\<rparr>"

text \<open>
  The two-bus grid after \<^verbatim>\<open>set_sn_mva(100)\<close> and \<^verbatim>\<open>set_init_vm_pu(1)\<close>, without its storage unit;
  and the two-bus grid after \<^verbatim>\<open>change_solver(SolverType::DC)\<close>.
\<close>

definition rebased :: "(unit, unit, unit, unit) GridModel" where
  "rebased = two_bus\<lparr>sn_mva_' := 100, init_vm_pu_' := 1,
                       storages_' := \<lparr>loads = [], loads_res = ([], [], [])\<rparr>\<rparr>"

definition dc_selected :: "(unit, unit, unit, unit) GridModel" where
  "dc_selected = two_bus\<lparr>need_reset_' := True, solver := change_solver DC (solver two_bus)\<rparr>"

text \<open>Collaborators whose solver converges at once; its DC variant answers the flat profile.\<close>

definition flat_dc_env :: "(unit, unit, unit) collaborators" where
  "flat_dc_env =
     (idle_env True)\<lparr>solver_compute_pf :=
        (\<lambda>sv Y V S pv pq max_iter tol.
           (True, if solver_type sv = DC then map (\<lambda>v. 1) V else V, [], []))\<rparr>"

text \<open>
  The same collaborators computing in double precision; and the two-bus grid with a second
  generator, at bus 1, the generators set to 0.1 MW and 0.2 MW. \<open>tenth\<close> and \<open>fifth\<close> are the
  doubles that \<^verbatim>\<open>0.1\<close> and \<^verbatim>\<open>0.2\<close> stand for, \<open>three_tenths\<close> is the double \<^verbatim>\<open>0.30000000000000004\<close>.
\<close>

definition tenth :: real where
  "tenth = 3602879701896397 / 2 ^ 55"

definition fifth :: real where
  "fifth = 3602879701896397 / 2 ^ 54"

definition three_tenths :: real where
  "three_tenths = 5404319552844596 / 2 ^ 54"

definition ieee_env :: "(unit, unit, unit) collaborators" where
  "ieee_env = (idle_env True)\<lparr>arith := ieee_ops\<rparr>"

definition tenths :: "(unit, unit, unit, unit) GridModel" where
  "tenths =
     two_bus\<lparr>generators_' :=
       \<lparr>gens = [\<lparr>gen_bus = 0, gen_p = tenth, gen_v = 1, gen_q_min = - 10,
                  gen_q_max = 10, gen_status = True\<rparr>,
                \<lparr>gen_bus = 1, gen_p = fifth, gen_v = 1, gen_q_min = - 10,
                  gen_q_max = 10, gen_status = True\<rparr>],
        gens_res = ([], [], [])\<rparr>\<rparr>"




text \<open>
  The members that \<^verbatim>\<open>get_state\<close> leaves out and \<^verbatim>\<open>set_state\<close> does not write from the state:
  a grid with other values for them.
\<close>

definition aside ::
  "bool \<Rightarrow> real \<Rightarrow> real \<Rightarrow> 'sg \<Rightarrow> DataLoad \<Rightarrow> ('l, 's, 't, 'sg) GridModel \<Rightarrow> ('l, 's, 't, 'sg) GridModel" where
  "aside c a b sg st g =
     g\<lparr>compute_results_' := c, init_vm_pu_' := a, sn_mva_' := b, sgens_' := sg, storages_' := st\<rparr>"

text \<open>The connected external ids below \<open>j\<close>, in increasing order.\<close>

definition connected_below :: "bool list \<Rightarrow> nat \<Rightarrow> nat list" where
  "connected_below bus_status j = filter (\<lambda>i. bus_status ! i) [0..<j]"

text \<open>
  The magnitude that \<^verbatim>\<open>dc_pf_old\<close> gives to the external bus \<open>i\<close>: the setpoint of the last
  active generator of the collection that sits at the bus; without one, 1 at a connected
  bus and 0 at a disconnected one.
\<close>

definition dc_vm_at :: "generator list \<Rightarrow> bool list \<Rightarrow> nat \<Rightarrow> real" where
  "dc_vm_at gs bus_status i =
     (case filter (\<lambda>g. gen_status g \<and> gen_bus g = int i) gs of
        [] \<Rightarrow> (if bus_status ! i then 1 else 0)
      | xs \<Rightarrow> gen_v (last xs))"

text \<open>
  What holds of \<^verbatim>\<open>(bus_pv, has_bus_been_added)\<close> while the generators classify \<open>K\<close> solver buses:
  \<^verbatim>\<open>bus_pv\<close> has no duplicate, holds solver buses other than the slack bus, and
  \<^verbatim>\<open>has_bus_been_added\<close> marks its entries and no other.
\<close>

definition pv_inv :: "nat \<Rightarrow> int \<Rightarrow> int list \<times> bool list \<Rightarrow> bool" where
  "pv_inv K slack acc =
     (case acc of (bus_pv, added) \<Rightarrow>
        length added = K \<and> distinct bus_pv
      \<and> (\<forall>x \<in> set bus_pv. 0 \<le> x \<and> x < int K \<and> x \<noteq> slack)
      \<and> (\<forall>b < K. added ! b \<longleftrightarrow> int b \<in> set bus_pv))"

section \<open>Properties\<close>

subsection \<open>Outcomes\<close>

lemma bind_outcome_Returns:
  "bind_outcome m f = Returns y \<longleftrightarrow> (\<exists>x. m = Returns x \<and> f x = Returns y)"
  by (cases m) (simp_all add: bind_outcome_def)

lemma read_at_Returns:
  "read_at xs i = Returns x \<longleftrightarrow> 0 \<le> i \<and> i < int (length xs) \<and> xs ! nat i = x"
  by (auto simp: read_at_def)

lemma and_then_Returns:
  "and_then m f = (Returns (), x) \<Longrightarrow> \<exists>y. m = (Returns (), y) \<and> f y = (Returns (), x)"
  by (cases m) (auto simp: and_then_def split: outcome.splits)

subsection \<open>Properties of the bus index maps\<close>

lemma connected_below_Suc:
  "connected_below st (Suc j) =
     connected_below st j @ (if st ! j then [j] else [])"
  by (simp add: connected_below_def)

lemma connected_below_bound: "i \<in> set (connected_below st j) \<Longrightarrow> i < j"
  by (simp add: connected_below_def)

lemma length_connected_below_mono:
  "i \<le> j \<Longrightarrow> length (connected_below st i) \<le> length (connected_below st j)"
proof (induction j)
  case 0
  then show ?case by simp
next
  case (Suc j)
  show ?case
  proof (cases "i = Suc j")
    case True
    then show ?thesis by simp
  next
    case False
    with Suc.prems have "i \<le> j" by simp
    from Suc.IH [OF this] show ?thesis by (simp add: connected_below_Suc)
  qed
qed

lemma length_connected_below_less:
  assumes "i < j" "st ! i"
  shows "length (connected_below st i) < length (connected_below st j)"
proof -
  have "length (connected_below st (Suc i)) \<le> length (connected_below st j)"
    using assms(1) by (intro length_connected_below_mono) simp
  with assms(2) show ?thesis by (simp add: connected_below_Suc)
qed

lemma connected_below_nth:
  assumes "i < j" "st ! i"
  shows "connected_below st j ! length (connected_below st i) = i"
  using assms
proof (induction j)
  case 0
  then show ?case by simp
next
  case (Suc j)
  show ?case
  proof (cases "i = j")
    case True
    with Suc.prems show ?thesis by (simp add: connected_below_Suc nth_append)
  next
    case False
    with Suc.prems have lt: "i < j" by simp
    have "length (connected_below st i) < length (connected_below st j)"
      using lt Suc.prems(2) by (rule length_connected_below_less)
    with Suc.IH [OF lt Suc.prems(2)] show ?thesis
      by (simp add: connected_below_Suc nth_append)
  qed
qed

text \<open>The state of the loop after the buses below \<open>j\<close>.\<close>

lemma init_Ybus_loop:
  assumes "j \<le> n"
  shows "fold (init_Ybus_step st) [0..<j] (replicate n deactivated_bus_id, [], 0) =
           (map (\<lambda>i. if i < j \<and> st ! i then int (length (connected_below st i))
                      else deactivated_bus_id) [0..<n],
            map int (connected_below st j),
            int (length (connected_below st j)))"
  using assms
proof (induction j)
  case 0
  show ?case
    by (simp add: connected_below_def map_replicate_trivial [symmetric] del: replicate.simps)
next
  case (Suc j)
  then have jn: "j < n" by simp
  show ?case
  proof (cases "st ! j")
    case True
    have "(map (\<lambda>i. if i < j \<and> st ! i then int (length (connected_below st i))
                     else deactivated_bus_id) [0..<n])
            [j := int (length (connected_below st j))] =
          map (\<lambda>i. if i < Suc j \<and> st ! i then int (length (connected_below st i))
                     else deactivated_bus_id) [0..<n]"
      using jn True by (intro nth_equalityI) (auto simp: less_Suc_eq nth_list_update)
    with Suc.IH True jn show ?thesis
      by (simp add: init_Ybus_step_def connected_below_Suc)
  next
    case False
    have "map (\<lambda>i. if i < j \<and> st ! i then int (length (connected_below st i))
                     else deactivated_bus_id) [0..<n] =
          map (\<lambda>i. if i < Suc j \<and> st ! i then int (length (connected_below st i))
                     else deactivated_bus_id) [0..<n]"
      using False by (intro nth_equalityI) (auto simp: less_Suc_eq)
    with Suc.IH False jn show ?thesis
      by (simp add: init_Ybus_step_def connected_below_Suc)
  qed
qed

lemma init_Ybus_maps_eq:
  "init_Ybus_maps n st =
     (map (\<lambda>i. if st ! i then int (length (connected_below st i)) else deactivated_bus_id) [0..<n],
      map int (connected_below st n),
      int (length (connected_below st n)))"
proof -
  have "map (\<lambda>i. if i < n \<and> st ! i then int (length (connected_below st i))
                  else deactivated_bus_id) [0..<n] =
        map (\<lambda>i. if st ! i then int (length (connected_below st i)) else deactivated_bus_id) [0..<n]"
    by (intro nth_equalityI) auto
  then show ?thesis
    unfolding init_Ybus_maps_def by (simp add: init_Ybus_loop)
qed

lemma init_Ybus_refs:
  assumes "n \<le> length st"
  shows "id_me_to_solver (snd (init_Ybus n st slack r)) = fst (init_Ybus_maps n st)"
    and "id_solver_to_me (snd (init_Ybus n st slack r)) = fst (snd (init_Ybus_maps n st))"
  using assms
  by (simp_all add: init_Ybus_def Let_def split: prod.splits)

text \<open>
  C1. Whenever \<^verbatim>\<open>init_Ybus\<close> rebuilds the bus index maps (it writes them before the slack
  check, so also when it throws there), with \<open>K\<close> the number of connected buses:
  \<^verbatim>\<open>id_me_to_solver\<close> has one entry per external bus; a connected bus \<open>i\<close> has a solver index in
  \<open>[0, K)\<close> that \<^verbatim>\<open>id_solver_to_me\<close> maps back to \<open>i\<close>; a disconnected bus has \<open>-1\<close>;
  \<^verbatim>\<open>id_solver_to_me\<close> has length \<open>K\<close> and lists the connected external ids in increasing order.
\<close>

theorem C1_bus_index_maps:
  fixes slack_bus_id :: int and r :: bus_refs
  assumes "nb_bus_init \<le> length bus_status"
  defines "r' \<equiv> snd (init_Ybus nb_bus_init bus_status slack_bus_id r)"
  defines "K \<equiv> length (filter (\<lambda>i. bus_status ! i) [0..<nb_bus_init])"
  shows "length (id_me_to_solver r') = nb_bus_init
       \<and> length (id_solver_to_me r') = K
       \<and> id_solver_to_me r' = map int (filter (\<lambda>i. bus_status ! i) [0..<nb_bus_init])
       \<and> sorted_wrt (<) (id_solver_to_me r')
       \<and> (\<forall>i < nb_bus_init.
            if bus_status ! i
            then 0 \<le> id_me_to_solver r' ! i \<and> id_me_to_solver r' ! i < int K
               \<and> id_solver_to_me r' ! nat (id_me_to_solver r' ! i) = int i
            else id_me_to_solver r' ! i = - 1)"
proof -
  let ?cb = "connected_below bus_status"
  have me: "id_me_to_solver r' =
      map (\<lambda>i. if bus_status ! i then int (length (?cb i)) else deactivated_bus_id)
          [0..<nb_bus_init]"
    unfolding r'_def using init_Ybus_refs(1) [OF assms(1)] by (simp add: init_Ybus_maps_eq)
  have so: "id_solver_to_me r' = map int (?cb nb_bus_init)"
    unfolding r'_def using init_Ybus_refs(2) [OF assms(1)] by (simp add: init_Ybus_maps_eq)
  have K: "K = length (?cb nb_bus_init)"
    by (simp add: K_def connected_below_def)
  have sorted: "sorted_wrt (<) (map int (?cb nb_bus_init))"
    by (simp add: connected_below_def sorted_wrt_map sorted_wrt_filter del: upt_Suc)
  have each: "if bus_status ! i
            then 0 \<le> id_me_to_solver r' ! i \<and> id_me_to_solver r' ! i < int K
               \<and> id_solver_to_me r' ! nat (id_me_to_solver r' ! i) = int i
            else id_me_to_solver r' ! i = - 1" if lt: "i < nb_bus_init" for i
  proof (cases "bus_status ! i")
    case True
    have l: "length (?cb i) < length (?cb nb_bus_init)"
      using lt True by (rule length_connected_below_less)
    have n: "?cb nb_bus_init ! length (?cb i) = i"
      using lt True by (rule connected_below_nth)
    from True lt l n show ?thesis by (simp add: me so K)
  next
    case False
    with lt show ?thesis by (simp add: me deactivated_bus_id_def)
  qed
  have len_me: "length (id_me_to_solver r') = nb_bus_init"
    by (simp add: me)
  have len_so: "length (id_solver_to_me r') = K"
    by (simp add: so K)
  have so': "id_solver_to_me r' = map int (filter (\<lambda>i. bus_status ! i) [0..<nb_bus_init])"
    by (simp add: so connected_below_def)
  have sorted': "sorted_wrt (<) (id_solver_to_me r')"
    using sorted by (simp only: so)
  from len_me len_so so' sorted' each show ?thesis
    by blast
qed

theorem C1_bus_index_maps_witness:
  "id_me_to_solver (snd (init_Ybus 3 [True, False, True] 0 reset_refs)) = [0, - 1, 1]
 \<and> id_solver_to_me (snd (init_Ybus 3 [True, False, True] 0 reset_refs)) = [0, 2]"
proof -
  have h: "(3::nat) \<le> length [True, False, True]" by simp
  have up: "[0..<3] = [0, 1, 2]" by (simp add: upt_rec)
  have m: "init_Ybus_maps 3 [True, False, True] = ([0, - 1, 1], [0, 2], 2)"
    by (simp add: init_Ybus_maps_def up init_Ybus_step_def deactivated_bus_id_def
          numeral_3_eq_3)
  from C1_bus_index_maps [OF h, of 0 reset_refs] show ?thesis
    by (simp add: init_Ybus_def m Let_def deactivated_bus_id_def)
qed

subsection \<open>Rounding to a double\<close>

lemma pow2_powr: "pow2 e = 2 powr of_int e"
  by (simp add: pow2_def powr_real_of_int inverse_eq_divide)

lemma pow2_pos: "0 < pow2 e"
  by (simp add: pow2_def)

lemma floor_log2:
  assumes "pow2 e \<le> x" "x < pow2 (e + 1)"
  shows "\<lfloor>log 2 x\<rfloor> = e"
proof -
  have pos: "0 < x" using assms(1) pow2_pos [of e] by simp
  have "of_int e \<le> log 2 x" using assms(1) pos by (simp add: le_log_iff pow2_powr)
  moreover have "log 2 x < of_int e + 1" using assms(2) pos by (simp add: log_less_iff pow2_powr)
  ultimately show ?thesis by (intro floor_unique) simp_all
qed

text \<open>The rounding of a number whose binade is known.\<close>

lemma binary64_at:
  assumes "pow2 e \<le> \<bar>x\<bar>" "\<bar>x\<bar> < pow2 (e + 1)" "- 1022 \<le> e"
  shows "binary64 x = of_int (round_even (x / pow2 (e - 52))) * pow2 (e - 52)"
proof -
  have "\<lfloor>log 2 \<bar>x\<bar>\<rfloor> = e" using assms(1,2) by (rule floor_log2)
  moreover have "x \<noteq> 0" using assms(1) pow2_pos [of e] by auto
  ultimately show ?thesis using assms(3) by (simp add: binary64_def Let_def max_def)
qed

lemma round_even_int: "round_even (of_int n) = n"
  by (simp add: round_even_def)

lemma round_even_half: "round_even (of_int n + 1 / 2) = (if even n then n else n + 1)"
proof -
  have "\<lfloor>of_int n + 1 / 2 :: real\<rfloor> = n" by (intro floor_unique) simp_all
  then show ?thesis by (simp add: round_even_def)
qed

text \<open>
  \<open>tenth\<close>, \<open>fifth\<close> and the difference of \<open>tenth\<close> and \<open>three_tenths\<close> are doubles; the sum of
  \<open>tenth\<close> and \<open>fifth\<close> lies halfway between two doubles and is rounded to the even one,
  \<open>three_tenths\<close>.
\<close>

lemma binary64_tenth: "binary64 tenth = tenth"
proof -
  have "binary64 tenth = of_int (round_even (tenth / pow2 (- 4 - 52))) * pow2 (- 4 - 52)"
    by (rule binary64_at) (simp_all add: pow2_def tenth_def)
  also have "tenth / pow2 (- 4 - 52) = real_of_int 7205759403792794"
    by (simp add: pow2_def tenth_def)
  finally show ?thesis by (simp only: round_even_int) (simp add: pow2_def tenth_def)
qed

lemma binary64_fifth: "binary64 fifth = fifth"
proof -
  have "binary64 fifth = of_int (round_even (fifth / pow2 (- 3 - 52))) * pow2 (- 3 - 52)"
    by (rule binary64_at) (simp_all add: pow2_def fifth_def)
  also have "fifth / pow2 (- 3 - 52) = real_of_int 7205759403792794"
    by (simp add: pow2_def fifth_def)
  finally show ?thesis by (simp only: round_even_int) (simp add: pow2_def fifth_def)
qed

lemma binary64_tenth_plus_fifth: "binary64 (tenth + fifth) = three_tenths"
proof -
  have "binary64 (tenth + fifth)
      = of_int (round_even ((tenth + fifth) / pow2 (- 2 - 52))) * pow2 (- 2 - 52)"
    by (rule binary64_at) (simp_all add: pow2_def tenth_def fifth_def)
  also have "(tenth + fifth) / pow2 (- 2 - 52) = real_of_int 5404319552844595 + 1 / 2"
    by (simp add: pow2_def tenth_def fifth_def)
  finally show ?thesis by (simp only: round_even_half) (simp add: pow2_def three_tenths_def)
qed

lemma binary64_tenth_minus_three_tenths: "binary64 (tenth - three_tenths) = tenth - three_tenths"
proof -
  have "binary64 (tenth - three_tenths)
      = of_int (round_even ((tenth - three_tenths) / pow2 (- 3 - 52))) * pow2 (- 3 - 52)"
    by (rule binary64_at) (simp_all add: pow2_def tenth_def three_tenths_def)
  also have "(tenth - three_tenths) / pow2 (- 3 - 52) = real_of_int (- 7205759403792795)"
    by (simp add: pow2_def tenth_def three_tenths_def)
  finally show ?thesis by (simp only: round_even_int) (simp add: pow2_def tenth_def three_tenths_def)
qed

subsection \<open>The slack correction of fillSbus_me\<close>


text \<open>
  When the five families have stamped their injections into \<open>S0\<close> and the solver index of
  the slack bus is an index of \<open>S0\<close>, \<^verbatim>\<open>fillSbus_me\<close> returns, with \<open>S0\<close> corrected at the slack
  bus.
\<close>

lemma fillSbus_me_returns:
  assumes "fillSbus_stamps env g res ac me_to_solver = (Returns (), S0)"
    and "0 \<le> slack" and "slack < int (length S0)"
  shows "fillSbus_me env g res ac me_to_solver slack
           = (Returns (),
              S0[nat slack := Complex (rnd (arith env) (Re (S0 ! nat slack)
                                         - Re (dsum (rnd (arith env)) S0)))
                                      (Im (S0 ! nat slack))])"
  using assms by (simp add: fillSbus_me_def and_then_def slack_correction_def)


text \<open>The run of \<^verbatim>\<open>fillSbus_me\<close> on \<open>tenths\<close> in double precision.\<close>

lemma rnd_ieee_env: "rnd (arith ieee_env) = binary64"
  by (simp add: ieee_env_def ieee_ops_def)

lemma fillSbus_stamps_tenths:
  "fillSbus_stamps ieee_env tenths [0, 0] True [0, 1]
     = (Returns (), [Complex tenth 0, Complex fifth 0])"
  by (simp add: fillSbus_stamps_def and_then_def ieee_env_def ieee_ops_def idle_env_def
        idle_ops_def tenths_def two_bus_def read_at_def deactivated_bus_id_def
        binary64_tenth binary64_fifth)

lemma dsum_tenths: "dsum binary64 [Complex tenth 0, Complex fifth 0] = Complex three_tenths 0"
proof -
  have "binary64 0 = 0" by (simp add: binary64_def)
  then show ?thesis by (simp add: dsum_def binary64_tenth_plus_fifth)
qed

lemma fillSbus_me_tenths:
  "fillSbus_me ieee_env tenths [0, 0] True [0, 1] 0
     = (Returns (), [Complex (tenth - three_tenths) 0, Complex fifth 0])"
  using fillSbus_me_returns [OF fillSbus_stamps_tenths, of 0]
  by (simp add: rnd_ieee_env dsum_tenths binary64_tenth_minus_three_tenths)



text \<open>
  C3 as stated fails: in double precision the generators of \<open>tenths\<close> stamp 0.1 and 0.2, the
  sum of the two is rounded up to \<open>three_tenths\<close>, and the corrected vector sums to
  \<open>-2^(-55)\<close>, not to 0.
\<close>

theorem C3_rounded_sum_counterexample:
  "fillSbus_me ieee_env tenths [0, 0] True [0, 1] 0
     = (Returns (), [Complex (tenth - three_tenths) 0, Complex fifth 0])
 \<and> tenth - three_tenths = - (7205759403792795 / 2 ^ 55)
 \<and> fifth = 7205759403792794 / 2 ^ 55
 \<and> Re (sum_list [Complex (tenth - three_tenths) 0, Complex fifth 0]) = - (1 / 2 ^ 55)
 \<and> Re (sum_list [Complex (tenth - three_tenths) 0, Complex fifth 0]) \<noteq> 0"
proof -
  have v: "tenth - three_tenths = - (7205759403792795 / 2 ^ 55)" "fifth = 7205759403792794 / 2 ^ 55"
    by (simp_all add: tenth_def fifth_def three_tenths_def)
  have s: "Re (sum_list [Complex (tenth - three_tenths) 0, Complex fifth 0]) = - (1 / 2 ^ 55)"
    by (simp add: tenth_def fifth_def three_tenths_def)
  from fillSbus_me_tenths v s show ?thesis by simp
qed

subsection \<open>add_gen_slackbus\<close>

text \<open>
  C7. The grid \<open>two_bus\<close> has one generator, so its generator ids are \<open>0\<close> alone; yet
  \<^verbatim>\<open>add_gen_slackbus(1)\<close> returns and records \<open>1\<close> as the slack generator: line 546 compares with
  \<^verbatim>\<open>>\<close> where the range of ids needs \<^verbatim>\<open>>=\<close>. The id it accepted is no generator's.
\<close>

theorem C7_add_gen_slackbus_accepts_nb:
  "nb (generators_' two_bus) = 1
 \<and> add_gen_slackbus 1 two_bus = (Returns (), two_bus\<lparr>gen_slackbus_' := 1\<rparr>)
 \<and> get_slack_bus_id (generators_' two_bus) 1 = Throws SlackInvalid"
  by (simp add: add_gen_slackbus_def nb_def two_bus_def get_slack_bus_id_def)

subsection \<open>change_p_storage\<close>

lemma map_update_same: "k < length xs \<Longrightarrow> (map f xs)[k := f (xs ! k)] = map f xs"
  by (simp add: list_update_same_conv)

text \<open>
  C9. For every storage id and every new value, \<^verbatim>\<open>change_p_storage\<close> changes no member of the
  grid but \<^verbatim>\<open>storages_\<close> and \<^verbatim>\<open>need_reset_\<close>; in \<^verbatim>\<open>storages_\<close> the status, the bus and the Q of every
  unit and the results stay, and the P setpoints change at \<open>storage_id\<close> alone, to \<open>new_p\<close>
  (also when \<open>new_p\<close> is 0). An id that is no storage's changes nothing.
\<close>

theorem C9_change_p_storage_frame:
  assumes "change_p_storage storage_id new_p g = (out, g')"
  shows "g' = g\<lparr>storages_' := storages_' g', need_reset_' := need_reset_' g'\<rparr>
       \<and> map load_status (loads (storages_' g')) = map load_status (loads (storages_' g))
       \<and> map load_bus (loads (storages_' g')) = map load_bus (loads (storages_' g))
       \<and> map load_q (loads (storages_' g')) = map load_q (loads (storages_' g))
       \<and> loads_res (storages_' g') = loads_res (storages_' g)
       \<and> (if 0 \<le> storage_id \<and> storage_id < int (length (loads (storages_' g)))
          then out = Returns ()
             \<and> map load_p (loads (storages_' g'))
                 = (map load_p (loads (storages_' g)))[nat storage_id := new_p]
             \<and> need_reset_' g'
          else out = Throws OutOfRange \<and> g' = g)"
  using assms
  by (auto simp: change_p_storage_def change_p_def map_update map_update_same split: if_splits)

theorem C9_change_p_storage_frame_witness:
  "map load_status (loads (storages_' (snd (change_p_storage 0 0 two_bus)))) = [True]
 \<and> map load_p (loads (storages_' (snd (change_p_storage 0 0 two_bus)))) = [0]
 \<and> map load_p (loads (storages_' two_bus)) = [5]
 \<and> fst (change_p_storage 0 0 two_bus) = Returns ()"
proof -
  have e: "change_p_storage 0 0 two_bus
         = (fst (change_p_storage 0 0 two_bus), snd (change_p_storage 0 0 two_bus))"
    by simp
  have s: "loads (storages_' two_bus) = [\<lparr>load_bus = 1, load_p = 5, load_q = 0, load_status = True\<rparr>]"
    by (simp add: two_bus_def)
  from C9_change_p_storage_frame [OF e] show ?thesis
    by (simp add: s)
qed

subsection \<open>What a solve leaves of the grid\<close>

lemma fillpv_pq_frame:
  "fillpv_pq m g = (out, g') \<Longrightarrow> \<exists>pv pq. g' = g\<lparr>bus_pv_' := pv, bus_pq_' := pq\<rparr>"
  by (auto simp: fillpv_pq_def Let_def split: prod.splits outcome.splits)

lemma pre_process_solver_frame:
  assumes "pre_process_solver env Vinit is_ac g = (out, g')"
  shows "g' = g\<lparr>need_reset_' := True, refs_' := refs_' g', bus_pv_' := bus_pv_' g',
                 bus_pq_' := bus_pq_' g', slack_bus_id_' := slack_bus_id_' g',
                 generators_' := generators_' g', solver := solver_reset (solver g)\<rparr>"
  using assms
  unfolding pre_process_solver_def Let_def reset_def
  by (auto split: prod.splits outcome.splits dest!: fillpv_pq_frame)

lemma pre_process_solver_solver:
  "pre_process_solver env Vinit is_ac g = (out, g') \<Longrightarrow> solver g' = solver_reset (solver g)"
  by (drule pre_process_solver_frame, erule ssubst) simp

lemma process_results_solver:
  "solver (snd (process_results env conv res Vinit g)) = solver g"
  by (simp add: process_results_def Let_def compute_results_def reset_results_def)

lemma compute_pf_type:
  "compute_pf env sv Y V S pv pq max_iter tol = (conv, sv') \<Longrightarrow> solver_type sv' = solver_type sv"
  by (auto simp: compute_pf_def split: prod.splits)

text \<open>The solver selection after \<^verbatim>\<open>dc_pf\<close>, for every way the call can end.\<close>

lemma dc_pf_solver_type:
  assumes "dc_pf env Vinit max_iter tol g = (out, g')"
  shows "if length Vinit \<noteq> length (bus_vn_kv_' g) then out = Throws InputSizeMismatch \<and> g' = g
         else case out of Returns res \<Rightarrow> get_solver_type g' = get_solver_type g
                        | Throws e \<Rightarrow> get_solver_type g' = DC"
proof (cases "length Vinit \<noteq> length (bus_vn_kv_' g)")
  case True
  with assms show ?thesis by (simp add: dc_pf_def)
next
  case False
  let ?g0 = "g\<lparr>solver := change_solver DC (solver g)\<rparr>"
  obtain o1 g1 where pre: "pre_process_solver env Vinit False ?g0 = (o1, g1)"
    by (cases "pre_process_solver env Vinit False ?g0")
  have t1: "solver_type (solver g1) = DC"
    using pre_process_solver_solver [OF pre] by (simp add: solver_reset_def change_solver_def)
  show ?thesis
  proof (cases o1)
    case (Throws e)
    with assms False pre t1 show ?thesis
      by (auto simp: dc_pf_def Let_def get_solver_type_def get_type_def)
  next
    case (Returns V)
    obtain conv sv where pf: "compute_pf env (solver g1) (Ybus (refs_' g1)) V (Sbus (refs_' g1))
                    (bus_pv_' g1) (bus_pq_' g1) max_iter tol = (conv, sv)"
      by (cases "compute_pf env (solver g1) (Ybus (refs_' g1)) V (Sbus (refs_' g1))
                    (bus_pv_' g1) (bus_pq_' g1) max_iter tol")
    have t2: "solver_type sv = DC" using compute_pf_type [OF pf] t1 by simp
    obtain o2 g2 where pr: "process_results env conv [] Vinit (g1\<lparr>solver := sv\<rparr>) = (o2, g2)"
      by (cases "process_results env conv [] Vinit (g1\<lparr>solver := sv\<rparr>)")
    have t3: "solver g2 = sv"
      using process_results_solver [of env conv "[]" Vinit "g1\<lparr>solver := sv\<rparr>"] pr by simp
    from assms False pre Returns pf pr t2 t3 show ?thesis
      by (cases o2) (auto simp: dc_pf_def Let_def get_solver_type_def get_type_def change_solver_def)
  qed
qed

subsection \<open>A disconnected slack bus\<close>

lemma init_Ybus_slack_disconnected:
  assumes "n \<le> length st" "0 \<le> slack" "slack < int n" "\<not> st ! nat slack"
  shows "fst (init_Ybus n st slack r) = Throws SlackDisconnected"
proof -
  have "nat slack < n" using assms(2,3) by simp
  then have "fst (init_Ybus_maps n st) ! nat slack = deactivated_bus_id"
    using assms(4) by (simp add: init_Ybus_maps_eq)
  with assms show ?thesis
    by (simp add: init_Ybus_def Let_def init_Ybus_maps_eq split: prod.splits)
qed

lemma pre_process_solver_slack_disconnected:
  assumes "get_slack_bus_id (generators_' g) (gen_slackbus_' g) = Returns slack"
    and "length (bus_vn_kv_' g) \<le> length (bus_status_' g)"
    and "0 \<le> slack" "slack < int (length (bus_vn_kv_' g))"
    and "\<not> bus_status_' g ! nat slack"
  shows "fst (pre_process_solver env Vinit is_ac g) = Throws SlackDisconnected"
proof -
  have "fst (init_Ybus (length (bus_vn_kv_' g)) (bus_status_' g) slack reset_refs)
          = Throws SlackDisconnected"
    using assms(2-5) by (rule init_Ybus_slack_disconnected)
  with assms(1) show ?thesis
    by (auto simp: pre_process_solver_def Let_def reset_def split: prod.splits outcome.splits)
qed

lemma slack_off_facts:
  "get_slack_bus_id (generators_' slack_off) (gen_slackbus_' slack_off) = Returns 0"
  "bus_vn_kv_' slack_off = [138, 138]"
  "bus_status_' slack_off = [False, True]"
  "solver slack_off = \<lparr>solver_type = AC 0, solver_V = [], solver_Va = [], solver_Vm = []\<rparr>"
  by (simp_all add: slack_off_def two_bus_def get_slack_bus_id_def nb_def)




subsection \<open>The solver selection across dc_pf\<close>

text \<open>
  C10. \<^verbatim>\<open>dc_pf\<close> saves the selection in line 508 and puts it back in line 525, which the paths
  that return reach (lemma \<open>dc_pf_solver_type\<close>). A call that throws between the two lines
  does not reach it: on \<open>slack_off\<close>, whose selection is \<open>AC 0\<close>, \<^verbatim>\<open>dc_pf\<close> throws "The slack bus
  is disconnected." out of \<^verbatim>\<open>init_Ybus\<close>, and \<^verbatim>\<open>get_solver_type\<close> answers \<open>DC\<close> afterwards, against the
  comment of lines 523 and 524, "put back the solver to its original state".
\<close>

theorem C10_dc_pf_throw_keeps_DC:
  "get_solver_type slack_off = AC 0
 \<and> fst (dc_pf (idle_env True) [1, 1] 10 0 slack_off) = Throws SlackDisconnected
 \<and> get_solver_type (snd (dc_pf (idle_env True) [1, 1] 10 0 slack_off)) = DC"
proof -
  let ?g0 = "slack_off\<lparr>solver := change_solver DC (solver slack_off)\<rparr>"
  have p0: "fst (pre_process_solver (idle_env True) [1, 1] False ?g0) = Throws SlackDisconnected"
    by (rule pre_process_solver_slack_disconnected [where slack = 0])
       (simp_all add: slack_off_facts)
  have e: "dc_pf (idle_env True) [1, 1] 10 0 slack_off
         = (fst (dc_pf (idle_env True) [1, 1] 10 0 slack_off),
            snd (dc_pf (idle_env True) [1, 1] 10 0 slack_off))"
    by simp
  have f: "fst (dc_pf (idle_env True) [1, 1] 10 0 slack_off) = Throws SlackDisconnected"
    using p0 by (auto simp: dc_pf_def Let_def slack_off_facts split: prod.splits outcome.splits)
  from dc_pf_solver_type [OF e] f show ?thesis
    by (simp add: slack_off_facts get_solver_type_def get_type_def)
qed

subsection \<open>Divergence\<close>

text \<open>
  Whenever \<^verbatim>\<open>ac_pf\<close> reaches the solver and the solver answers that it did not converge,
  \<^verbatim>\<open>ac_pf\<close> returns (it does not throw) the empty vector; \<^verbatim>\<open>need_reset_\<close> is set, and the results
  of the lines, shunts, transformers, loads and generators are reset. The members \<^verbatim>\<open>sgens_\<close>
  and \<^verbatim>\<open>storages_\<close> of GridModel.h are as they were before the call.
\<close>

lemma ac_pf_diverged:
  assumes "length Vinit = length (bus_vn_kv_' g)"
    and "pre_process_solver env Vinit True g = (Returns V, g1)"
    and "compute_pf env (solver g1) (Ybus (refs_' g1)) V (Sbus (refs_' g1))
           (bus_pv_' g1) (bus_pq_' g1) max_iter tol = (False, sv)"
  shows "ac_pf env Vinit max_iter tol g
           = (Returns [], (reset_results env (g1\<lparr>solver := sv\<rparr>))\<lparr>need_reset_' := True\<rparr>)
       \<and> need_reset_' (snd (ac_pf env Vinit max_iter tol g))
       \<and> powerlines_' (snd (ac_pf env Vinit max_iter tol g))
           = reset_results_of (line_ops env) (powerlines_' g)
       \<and> shunts_' (snd (ac_pf env Vinit max_iter tol g))
           = reset_results_of (shunt_ops env) (shunts_' g)
       \<and> trafos_' (snd (ac_pf env Vinit max_iter tol g))
           = reset_results_of (trafo_ops env) (trafos_' g)
       \<and> loads_' (snd (ac_pf env Vinit max_iter tol g))
           = reset_results_of (load_ops env) (loads_' g)
       \<and> generators_' (snd (ac_pf env Vinit max_iter tol g))
           = gen_reset_results env (generators_' g1)
       \<and> storages_' (snd (ac_pf env Vinit max_iter tol g)) = storages_' g
       \<and> sgens_' (snd (ac_pf env Vinit max_iter tol g)) = sgens_' g"
proof -
  have run: "ac_pf env Vinit max_iter tol g
           = (Returns [], (reset_results env (g1\<lparr>solver := sv\<rparr>))\<lparr>need_reset_' := True\<rparr>)"
    using assms by (simp add: ac_pf_def process_results_def)
  note fr = pre_process_solver_frame [OF assms(2)]
  have "powerlines_' g1 = powerlines_' g" "shunts_' g1 = shunts_' g" "trafos_' g1 = trafos_' g"
    "loads_' g1 = loads_' g" "storages_' g1 = storages_' g" "sgens_' g1 = sgens_' g"
    by (subst fr, simp)+
  with run show ?thesis by (simp add: reset_results_def)
qed


subsection \<open>Bus classification\<close>

lemma pv_inv_start: "pv_inv K slack ([], replicate K False)"
  by (simp add: pv_inv_def)

lemma pv_inv_push:
  assumes "pv_inv K slack (pv, added)" "0 \<le> x" "x < int (length added)" "\<not> added ! nat x" "x \<noteq> slack"
  shows "pv_inv K slack (pv @ [x], added[nat x := True])"
proof -
  from assms(1) have len: "length added = K" and d: "distinct pv"
    and r: "\<forall>y \<in> set pv. 0 \<le> y \<and> y < int K \<and> y \<noteq> slack"
    and a: "\<forall>b < K. added ! b \<longleftrightarrow> int b \<in> set pv"
    by (simp_all add: pv_inv_def)
  have xk: "nat x < K" using assms(2,3) len by simp
  have notin: "x \<notin> set pv"
    using a xk assms(2,4) by (metis int_nat_eq)
  have a': "\<forall>b < K. (added[nat x := True]) ! b \<longleftrightarrow> int b \<in> set (pv @ [x])"
  proof (intro allI impI)
    fix b assume b: "b < K"
    show "(added[nat x := True]) ! b \<longleftrightarrow> int b \<in> set (pv @ [x])"
    proof (cases "b = nat x")
      case True
      with b len assms(2) show ?thesis by simp
    next
      case False
      with assms(2) have "int b \<noteq> x" by auto
      with False a b show ?thesis by simp
    qed
  qed
  from len d r notin a' assms(2,3,5) show ?thesis
    by (simp add: pv_inv_def)
qed

lemma gen_fillpv_inv:
  assumes "gen_fillpv gs acc slack m = (Returns (), acc')" "pv_inv K slack acc"
  shows "pv_inv K slack acc'"
  using assms
proof (induction gs arbitrary: acc)
  case Nil
  then show ?case by simp
next
  case (Cons g gs)
  obtain pv added where acc: "acc = (pv, added)" by (cases acc)
  show ?case
  proof (cases "gen_status g")
    case False
    with Cons acc show ?thesis by simp
  next
    case True
    note active = this
    show ?thesis
    proof (cases "read_at m (gen_bus g)")
      case (Throws e)
      with Cons.prems(1) acc active show ?thesis by simp
    next
      case (Returns sid)
      note sid = this
      show ?thesis
      proof (cases "sid = deactivated_bus_id \<or> sid = slack")
        case True
        with Cons acc active sid show ?thesis by (auto split: if_splits)
      next
        case False
        note other = this
        show ?thesis
        proof (cases "read_at added sid")
          case (Throws e)
          with Cons.prems(1) acc active sid other show ?thesis by simp
        next
          case (Returns was)
          show ?thesis
          proof (cases was)
            case True
            with Cons acc active sid other Returns show ?thesis by simp
          next
            case False
            from Returns False have rng: "0 \<le> sid" "sid < int (length added)" "\<not> added ! nat sid"
              by (auto simp: read_at_def split: if_splits)
            have "pv_inv K slack (pv @ [sid], added[nat sid := True])"
              using Cons.prems(2) [unfolded acc] rng other by (intro pv_inv_push) simp_all
            moreover have "gen_fillpv gs (pv @ [sid], added[nat sid := True]) slack m = (Returns (), acc')"
              using Cons.prems(1) acc active sid other Returns False by simp
            ultimately show ?thesis by (rule Cons.IH [rotated])
          qed
        qed
      qed
    qed
  qed
qed

lemma fillpv_pq_loop:
  "j \<le> length added \<Longrightarrow>
   fold (fillpv_pq_step slack) [0..<j] ([], added) =
     (map int (filter (\<lambda>b. int b \<noteq> slack \<and> \<not> added ! b) [0..<j]),
      map (\<lambda>b. if b < j \<and> int b \<noteq> slack then True else added ! b) [0..<length added])"
proof (induction j)
  case 0
  show ?case by (simp add: map_nth)
next
  case (Suc j)
  then have j: "j < length added" by simp
  let ?added = "map (\<lambda>b. if b < j \<and> int b \<noteq> slack then True else added ! b) [0..<length added]"
  have nth: "?added ! j = added ! j" using j by simp
  have same: "?added = map (\<lambda>b. if b < Suc j \<and> int b \<noteq> slack then True else added ! b) [0..<length added]"
    if "int j = slack \<or> added ! j"
    using that by (intro nth_equalityI) (auto simp: less_Suc_eq)
  have upd: "?added[j := True] = map (\<lambda>b. if b < Suc j \<and> int b \<noteq> slack then True else added ! b) [0..<length added]"
    if "int j \<noteq> slack"
    using that j by (intro nth_equalityI) (auto simp: less_Suc_eq nth_list_update)
  from Suc.IH j nth same upd show ?case
    by (auto simp: fillpv_pq_step_def)
qed

lemma fillpv_pq_partition:
  assumes run: "fillpv_pq me_to_solver g = (Returns (), g')"
    and lo: "0 \<le> slack_bus_id_solver (refs_' g)"
    and hi: "slack_bus_id_solver (refs_' g) < int (length (id_solver_to_me (refs_' g)))"
  shows "distinct (bus_pv_' g') \<and> distinct (bus_pq_' g')
       \<and> slack_bus_id_solver (refs_' g) \<notin> set (bus_pv_' g')
       \<and> slack_bus_id_solver (refs_' g) \<notin> set (bus_pq_' g')
       \<and> set (bus_pv_' g') \<inter> set (bus_pq_' g') = {}
       \<and> {slack_bus_id_solver (refs_' g)} \<union> set (bus_pv_' g') \<union> set (bus_pq_' g')
           = {0 ..< int (length (id_solver_to_me (refs_' g)))}
       \<and> refs_' g' = refs_' g"
proof -
  let ?K = "length (id_solver_to_me (refs_' g))"
  let ?slack = "slack_bus_id_solver (refs_' g)"
  obtain pv added where gf: "gen_fillpv (gens (generators_' g)) ([], replicate ?K False) ?slack me_to_solver
      = (Returns (), pv, added)"
    using run by (auto simp: fillpv_pq_def Let_def split: prod.splits outcome.splits)
  let ?pq = "map int (filter (\<lambda>b. int b \<noteq> ?slack \<and> \<not> added ! b) [0..<?K])"
  have inv: "pv_inv ?K ?slack (pv, added)"
    using gf pv_inv_start by (rule gen_fillpv_inv)
  then have len: "length added = ?K" and d: "distinct pv"
    and r: "\<forall>x \<in> set pv. 0 \<le> x \<and> x < int ?K \<and> x \<noteq> ?slack"
    and a: "\<forall>b < ?K. added ! b \<longleftrightarrow> int b \<in> set pv"
    by (simp_all add: pv_inv_def)
  have loop: "fst (fold (fillpv_pq_step ?slack) [0..<?K] ([], added)) = ?pq"
    using fillpv_pq_loop [of ?K added ?slack] len by simp
  have g': "bus_pv_' g' = pv" "bus_pq_' g' = ?pq" "refs_' g' = refs_' g"
    using run gf loop by (auto simp: fillpv_pq_def Let_def split: prod.splits)
  have dq: "distinct ?pq" by (simp add: distinct_map)
  have s1: "?slack \<notin> set pv" using r by blast
  have s2: "?slack \<notin> set ?pq" by auto
  have dj: "set pv \<inter> set ?pq = {}" using a by auto
  have un: "{?slack} \<union> set pv \<union> set ?pq = {0 ..< int ?K}"
  proof (intro set_eqI iffI)
    fix x assume "x \<in> {?slack} \<union> set pv \<union> set ?pq"
    then show "x \<in> {0 ..< int ?K}" using lo hi r by auto
  next
    fix x assume x: "x \<in> {0 ..< int ?K}"
    then have b: "nat x < ?K" "int (nat x) = x" by auto
    show "x \<in> {?slack} \<union> set pv \<union> set ?pq"
    proof (cases "x = ?slack \<or> x \<in> set pv")
      case True
      then show ?thesis by blast
    next
      case False
      with a b have "\<not> added ! nat x" by metis
      with False b have "nat x \<in> set (filter (\<lambda>b. int b \<noteq> ?slack \<and> \<not> added ! b) [0..<?K])"
        by simp
      then have "int (nat x) \<in> int ` set (filter (\<lambda>b. int b \<noteq> ?slack \<and> \<not> added ! b) [0..<?K])"
        by (rule imageI)
      with b show ?thesis by (simp del: set_filter)
    qed
  qed
  from d dq s1 s2 dj un g' show ?thesis by simp
qed

lemma init_Ybus_slack_in_range:
  assumes "init_Ybus n st sb r0 = (Returns (), r)"
  shows "0 \<le> slack_bus_id_solver r \<and> slack_bus_id_solver r < int (length (id_solver_to_me r))"
proof -
  from assms have n: "n \<le> length st" and sb: "0 \<le> sb" "sb < int n"
    by (auto simp: init_Ybus_def Let_def init_Ybus_maps_eq split: if_splits)
  then have k: "nat sb < n" by simp
  from assms n sb have r: "id_solver_to_me r = map int (connected_below st n)"
    "slack_bus_id_solver r
       = (if st ! nat sb then int (length (connected_below st (nat sb))) else deactivated_bus_id)"
    "slack_bus_id_solver r \<noteq> deactivated_bus_id"
    using k by (auto simp: init_Ybus_def Let_def init_Ybus_maps_eq split: if_splits)
  then have c: "st ! nat sb" by (auto split: if_splits)
  from length_connected_below_less [OF k c] r c show ?thesis by simp
qed

text \<open>
  C2. After \<^verbatim>\<open>fillpv_pq\<close> has classified the \<open>K\<close> solver buses around a slack bus in \<open>[0, K)\<close>,
  neither \<^verbatim>\<open>bus_pv_\<close> nor \<^verbatim>\<open>bus_pq_\<close> has a duplicate, the slack bus is in neither, they share
  no entry, and the slack bus with their entries make up \<open>{0, ..., K - 1}\<close>.
\<close>

theorem C2_partition:
  assumes "fillpv_pq me_to_solver g = (Returns (), g')"
    and "0 \<le> slack_bus_id_solver (refs_' g)"
    and "slack_bus_id_solver (refs_' g) < int (length (id_solver_to_me (refs_' g)))"
  shows "distinct (bus_pv_' g') \<and> distinct (bus_pq_' g')
       \<and> slack_bus_id_solver (refs_' g') \<notin> set (bus_pv_' g')
       \<and> slack_bus_id_solver (refs_' g') \<notin> set (bus_pq_' g')
       \<and> set (bus_pv_' g') \<inter> set (bus_pq_' g') = {}
       \<and> {slack_bus_id_solver (refs_' g')} \<union> set (bus_pv_' g') \<union> set (bus_pq_' g')
           = {0 ..< int (length (id_solver_to_me (refs_' g')))}"
  using fillpv_pq_partition [OF assms] by simp

theorem C2_partition_witness:
  "fillpv_pq [0, 1, 2] three_bus = (Returns (), three_bus\<lparr>bus_pv_' := [1], bus_pq_' := [2]\<rparr>)
 \<and> {0} \<union> set [1] \<union> set [2] = {0 ..< (3::int)}"
proof -
  have r: "refs_' three_bus = reset_refs\<lparr>Ybus := empty_matrix 3 3, Sbus := [0, 0, 0],
                         id_me_to_solver := [0, 1, 2], id_solver_to_me := [0, 1, 2],
                         slack_bus_id_solver := 0\<rparr>"
    by (simp add: three_bus_def)
  have run: "fillpv_pq [0, 1, 2] three_bus = (Returns (), three_bus\<lparr>bus_pv_' := [1], bus_pq_' := [2]\<rparr>)"
    by code_simp
  from C2_partition [OF run] show ?thesis
    by (simp add: r run)
qed

text \<open>In a solve the slack bus is in \<open>[0, K)\<close> whenever \<^verbatim>\<open>init_Ybus\<close> has returned, so the
  classification that \<^verbatim>\<open>pre_process_solver\<close> hands to the solver is this partition.\<close>

lemma pre_process_solver_partition:
  assumes "pre_process_solver env Vinit is_ac g = (Returns V, g')"
  shows "distinct (bus_pv_' g') \<and> distinct (bus_pq_' g')
       \<and> slack_bus_id_solver (refs_' g') \<notin> set (bus_pv_' g')
       \<and> slack_bus_id_solver (refs_' g') \<notin> set (bus_pq_' g')
       \<and> set (bus_pv_' g') \<inter> set (bus_pq_' g') = {}
       \<and> {slack_bus_id_solver (refs_' g')} \<union> set (bus_pv_' g') \<union> set (bus_pq_' g')
           = {0 ..< int (length (id_solver_to_me (refs_' g')))}"
proof -
  let ?g1 = "reset g"
  from assms obtain slack r Y g5 where
    iy: "init_Ybus (length (bus_vn_kv_' g)) (bus_status_' g) slack reset_refs = (Returns (), r)"
    and fp: "fillpv_pq (id_me_to_solver r) (?g1\<lparr>slack_bus_id_' := slack, refs_' := r\<lparr>Ybus := Y\<rparr>\<rparr>)
              = (Returns (), g5)"
    and g': "bus_pv_' g' = bus_pv_' g5" "bus_pq_' g' = bus_pq_' g5"
      "slack_bus_id_solver (refs_' g') = slack_bus_id_solver (refs_' g5)"
      "id_solver_to_me (refs_' g') = id_solver_to_me (refs_' g5)"
    unfolding pre_process_solver_def Let_def
    by (auto simp: reset_def split: prod.splits outcome.splits)
  note rng = init_Ybus_slack_in_range [OF iy]
  have "distinct (bus_pv_' g5) \<and> distinct (bus_pq_' g5)
       \<and> slack_bus_id_solver r \<notin> set (bus_pv_' g5)
       \<and> slack_bus_id_solver r \<notin> set (bus_pq_' g5)
       \<and> set (bus_pv_' g5) \<inter> set (bus_pq_' g5) = {}
       \<and> {slack_bus_id_solver r} \<union> set (bus_pv_' g5) \<union> set (bus_pq_' g5)
           = {0 ..< int (length (id_solver_to_me r))}
       \<and> refs_' g5 = r\<lparr>Ybus := Y\<rparr>"
    using fillpv_pq_partition [OF fp] rng by simp
  with g' show ?thesis by simp
qed

subsection \<open>dc_pf_old\<close>

lemma dc_fill_Va_slack:
  assumes "dc_fill_Va sb st m slack Va_dc ids Va = Returns Va'"
  shows "length Va' = length Va \<and> (\<forall>i. int i = sb \<longrightarrow> Va' ! i = Va ! i)"
  using assms
proof (induction ids arbitrary: Va)
  case Nil
  then show ?case by simp
next
  case (Cons i ids)
  show ?case
  proof (cases "int i = sb")
    case True
    with Cons show ?thesis by simp
  next
    case False
    show ?thesis
    proof (cases "read_at st (int i) = Returns False")
      case True
      with Cons False show ?thesis by (simp add: bind_outcome_def)
    next
      case nf: False
      with Cons.prems False obtain a where
        rest: "dc_fill_Va sb st m slack Va_dc ids (Va[i := a]) = Returns Va'"
        by (auto simp: bind_outcome_Returns split: if_splits)
      from Cons.IH [OF rest] False show ?thesis by (auto simp: nth_list_update)
    qed
  qed
qed

lemma dc_Vm_init_loop:
  "j \<le> n \<Longrightarrow>
   fold (\<lambda>bus_id_me Vm. if st ! bus_id_me then Vm else Vm[bus_id_me := 0]) [0..<j] (replicate n (1::real))
     = map (\<lambda>i. if i < j \<and> \<not> st ! i then 0 else 1) [0..<n]"
proof (induction j)
  case 0
  show ?case by (simp add: map_replicate_trivial [symmetric] del: replicate.simps)
next
  case (Suc j)
  then have j: "j < n" by simp
  have "(map (\<lambda>i. if i < j \<and> \<not> st ! i then 0 else (1::real)) [0..<n])[j := 0]
          = map (\<lambda>i. if i < Suc j \<and> \<not> st ! i then 0 else 1) [0..<n]" if "\<not> st ! j"
    using that j by (intro nth_equalityI) (auto simp: less_Suc_eq nth_list_update)
  moreover have "map (\<lambda>i. if i < j \<and> \<not> st ! i then 0 else (1::real)) [0..<n]
          = map (\<lambda>i. if i < Suc j \<and> \<not> st ! i then 0 else 1) [0..<n]" if "st ! j"
    using that j by (intro nth_equalityI) (auto simp: less_Suc_eq)
  ultimately show ?case using Suc.IH j by simp
qed

lemma dc_Vm_init_eq:
  "dc_Vm_init n n st = map (\<lambda>i. if st ! i then 1 else 0) [0..<n]"
proof -
  have "map (\<lambda>i. if i < n \<and> \<not> st ! i then 0 else (1::real)) [0..<n]
      = map (\<lambda>i. if st ! i then 1 else 0) [0..<n]"
    by (intro nth_equalityI) auto
  then show ?thesis by (simp add: dc_Vm_init_def dc_Vm_init_loop)
qed

lemma get_vm_for_dc_nth:
  assumes "get_vm_for_dc gs Vm = (Returns (), Vm')"
  shows "length Vm' = length Vm
       \<and> (\<forall>i < length Vm. Vm' ! i =
            (case filter (\<lambda>g. gen_status g \<and> gen_bus g = int i) gs of
               [] \<Rightarrow> Vm ! i | xs \<Rightarrow> gen_v (last xs)))"
  using assms
proof (induction gs arbitrary: Vm)
  case Nil
  then show ?case by simp
next
  case (Cons g gs)
  show ?case
  proof (cases "gen_status g")
    case False
    with Cons show ?thesis by simp
  next
    case True
    with Cons.prems have rng: "0 \<le> gen_bus g" "gen_bus g < int (length Vm)"
      and rest: "get_vm_for_dc gs (Vm[nat (gen_bus g) := gen_v g]) = (Returns (), Vm')"
      by (auto split: if_splits)
    note ih = Cons.IH [OF rest]
    show ?thesis
    proof (intro conjI allI impI)
      show "length Vm' = length Vm" using ih by simp
    next
      fix i assume i: "i < length Vm"
      let ?f = "filter (\<lambda>g. gen_status g \<and> gen_bus g = int i) gs"
      from ih i have v: "Vm' ! i = (case ?f of [] \<Rightarrow> (Vm[nat (gen_bus g) := gen_v g]) ! i
                                     | xs \<Rightarrow> gen_v (last xs))"
        by simp
      show "Vm' ! i = (case filter (\<lambda>g. gen_status g \<and> gen_bus g = int i) (g # gs) of
               [] \<Rightarrow> Vm ! i | xs \<Rightarrow> gen_v (last xs))"
      proof (cases "gen_bus g = int i")
        case here: True
        then have "nat (gen_bus g) = i" by simp
        with v i True here show ?thesis by (cases ?f) simp_all
      next
        case False
        with rng have "nat (gen_bus g) \<noteq> i" by auto
        with v False show ?thesis by (cases ?f) simp_all
      qed
    qed
  qed
qed

lemma gen_fillSbus_connected:
  assumes "gen_fillSbus r gs res ac m = (Returns (), res')"
  shows "\<forall>g \<in> set gs. gen_status g \<longrightarrow>
           0 \<le> gen_bus g \<and> gen_bus g < int (length m) \<and> m ! nat (gen_bus g) \<noteq> deactivated_bus_id"
  using assms
proof (induction gs arbitrary: res)
  case Nil
  then show ?case by simp
next
  case (Cons g gs)
  show ?case
  proof (cases "gen_status g")
    case False
    with Cons show ?thesis by simp
  next
    case True
    with Cons.prems obtain sid s where
      sid: "read_at m (gen_bus g) = Returns sid" "sid \<noteq> deactivated_bus_id"
      and rest: "gen_fillSbus r gs (res[nat sid := Complex (r (Re s + gen_p g)) (Im s)]) ac m
                   = (Returns (), res')"
      by (auto split: outcome.splits if_splits)
    from sid have "0 \<le> gen_bus g \<and> gen_bus g < int (length m) \<and> m ! nat (gen_bus g) \<noteq> deactivated_bus_id"
      by (auto simp: read_at_Returns)
    with Cons.IH [OF rest] show ?thesis by simp
  qed
qed

lemma fillSbus_me_connected:
  assumes "fillSbus_me env g res ac m slack = (Returns (), S)"
  shows "\<forall>k \<in> set (gens (generators_' g)). gen_status k \<longrightarrow>
           0 \<le> gen_bus k \<and> gen_bus k < int (length m) \<and> m ! nat (gen_bus k) \<noteq> deactivated_bus_id"
proof -
  from and_then_Returns [OF assms [unfolded fillSbus_me_def]]
  obtain S0 where "fillSbus_stamps env g res ac m = (Returns (), S0)" by blast
  from and_then_Returns [OF this [unfolded fillSbus_stamps_def]]
  obtain S1 where "gen_fillSbus (rnd (arith env)) (gens (generators_' g)) S1 ac m = (Returns (), S0)"
    by blast
  then show ?thesis by (rule gen_fillSbus_connected)
qed

lemma init_Ybus_Returns:
  assumes "init_Ybus n st sb r0 = (Returns (), r)"
  shows "n \<le> length st \<and> 0 \<le> sb \<and> sb < int n
       \<and> id_me_to_solver r
           = map (\<lambda>i. if st ! i then int (length (connected_below st i)) else deactivated_bus_id) [0..<n]"
  using assms
  by (auto simp: init_Ybus_def Let_def init_Ybus_maps_eq split: if_splits)

text \<open>Without rounding, line 495 gives the number of modulus \<open>vm\<close> and argument \<open>va\<close>.\<close>

lemma polar_exact: "polar exact_ops vm va = complex_of_real vm * cis va"
  by (simp add: polar_def exact_ops_def complex_eq_iff)

lemma cmod_polar_exact: "cmod (polar exact_ops vm va) = \<bar>vm\<bar>"
  by (simp add: polar_exact norm_mult)

lemma Arg_polar_exact:
  assumes "0 < vm"
  shows "Arg (polar exact_ops vm (Arg z)) = Arg z"
proof (rule cis_Arg_unique)
  show "sgn (polar exact_ops vm (Arg z)) = cis (Arg z)"
    using assms by (simp add: polar_exact sgn_eq norm_mult)
  show "- pi < Arg z" "Arg z \<le> pi" using Arg_bounded [of z] by simp_all
qed

lemma dc_pf_old_solve_shape:
  assumes ok: "dc_pf_old_solve env Vinit g = Returns V" and ne: "V \<noteq> []"
    and sz: "length Vinit = length (bus_vn_kv_' g)"
  shows "\<exists>Va. length Va = length (bus_vn_kv_' g)
            \<and> 0 \<le> slack_bus_id_' g \<and> slack_bus_id_' g < int (length (bus_vn_kv_' g))
            \<and> Va ! nat (slack_bus_id_' g)
                = rnd (arith env) (0 + lib_arg (arith env) (Vinit ! nat (slack_bus_id_' g)))
            \<and> V = map (\<lambda>i. polar (arith env) (dc_vm_at (gens (generators_' g)) (bus_status_' g) i)
                                 (Va ! i))
                     [0..<length (bus_vn_kv_' g)]
            \<and> (\<forall>k \<in> set (gens (generators_' g)). gen_status k \<longrightarrow>
                  0 \<le> gen_bus k \<and> gen_bus k < int (length (bus_vn_kv_' g))
                \<and> bus_status_' g ! nat (gen_bus k))"
proof -
  let ?N = "length (bus_vn_kv_' g)"
  let ?st = "bus_status_' g"
  let ?sb = "slack_bus_id_' g"
  let ?gs = "gens (generators_' g)"
  let ?ops = "arith env"
  from ok ne obtain r S Va_dc Va0 Vm v_slack where
    iy: "init_Ybus ?N ?st ?sb reset_refs = (Returns (), r)"
    and fs: "fillSbus_me env g (Sbus r) False (id_me_to_solver r) (slack_bus_id_solver r) = (Returns (), S)"
    and fv: "dc_fill_Va ?sb ?st (id_me_to_solver r) (slack_bus_id_solver r) Va_dc [0..<?N]
               (replicate ?N 0) = Returns Va0"
    and ra: "read_at Vinit ?sb = Returns v_slack"
    and vm: "get_vm_for_dc ?gs (dc_Vm_init (length Vinit) ?N ?st) = (Returns (), Vm)"
    and V: "V = map2 (polar ?ops) Vm (map (\<lambda>a. rnd ?ops (a + lib_arg ?ops v_slack)) Va0)"
    unfolding dc_pf_old_solve_def Let_def
    by (auto split: prod.splits outcome.splits option.splits if_splits)
  note iy' = init_Ybus_Returns [OF iy]
  then have sb: "0 \<le> ?sb" "?sb < int ?N" and nst: "?N \<le> length ?st"
    and m: "id_me_to_solver r
           = map (\<lambda>i. if ?st ! i then int (length (connected_below ?st i)) else deactivated_bus_id) [0..<?N]"
    by simp_all
  let ?Va = "map (\<lambda>a. rnd ?ops (a + lib_arg ?ops v_slack)) Va0"
  from dc_fill_Va_slack [OF fv] have lv: "length Va0 = ?N" and v0: "Va0 ! nat ?sb = 0"
    using sb by auto
  from ra have vs: "v_slack = Vinit ! nat ?sb" by (simp add: read_at_Returns)
  have "?Va ! nat ?sb = rnd ?ops (Va0 ! nat ?sb + lib_arg ?ops v_slack)"
    using lv sb by simp
  then have va: "?Va ! nat ?sb = rnd ?ops (0 + lib_arg ?ops (Vinit ! nat ?sb))"
    by (simp only: v0 vs)
  from get_vm_for_dc_nth [OF vm] sz
  have lm: "length Vm = ?N"
    and vmn: "\<forall>i < ?N. Vm ! i = dc_vm_at ?gs ?st i"
    by (auto simp: dc_Vm_init_eq dc_vm_at_def dc_Vm_init_def split: list.splits)
  have Veq: "V = map (\<lambda>i. polar ?ops (dc_vm_at ?gs ?st i) (?Va ! i)) [0..<?N]"
    unfolding V using lm lv vmn by (intro nth_equalityI) simp_all
  have conn: "\<forall>k \<in> set ?gs. gen_status k \<longrightarrow>
                0 \<le> gen_bus k \<and> gen_bus k < int ?N \<and> ?st ! nat (gen_bus k)"
  proof (intro ballI impI)
    fix k assume k: "k \<in> set ?gs" "gen_status k"
    with fillSbus_me_connected [OF fs]
    have b: "0 \<le> gen_bus k" "gen_bus k < int (length (id_me_to_solver r))"
      "id_me_to_solver r ! nat (gen_bus k) \<noteq> deactivated_bus_id"
      by auto
    from b(1,2) have lt: "nat (gen_bus k) < ?N" by (simp add: m)
    with b(3) have "?st ! nat (gen_bus k)" by (simp add: m split: if_splits)
    with b lt show "0 \<le> gen_bus k \<and> gen_bus k < int ?N \<and> ?st ! nat (gen_bus k)" by (simp add: m)
  qed
  from lv sb va Veq conn show ?thesis
    by (intro exI [of _ ?Va]) simp
qed

text \<open>
  C5. When \<^verbatim>\<open>dc_pf_old\<close> succeeds (it returns a vector that is not the empty vector of a failed
  LU), the vector has one entry per external bus, and there are magnitudes \<open>Vm\<close> and angles
  \<open>Va\<close>, one per bus, of which it is the polar form as line 495 computes it in double
  precision: the real part of an entry is the rounded product of the magnitude and the
  cosine of the angle, the imaginary part the rounded product of the magnitude and the
  sine. The angle of the slack bus is \<^verbatim>\<open>0. + std::arg(Vinit(slack_bus_id_))\<close>, a sum that rounds
  nothing when the library answers a double. The magnitude is 0 at a disconnected bus, 1 at
  a connected bus without an active generator, and the setpoint of the last of the active
  generators at a bus that has some. A disconnected bus has the value 0. In exact
  arithmetic every entry has the modulus of its magnitude, and the argument of the entry of
  the slack bus is \<open>arg(Vinit[slack bus])\<close>.
\<close>

theorem C5_dc_pf_old:
  assumes "dc_pf_old env Vinit max_iter tol g = (Returns V, g')" and "V \<noteq> []"
  shows "length V = length (bus_vn_kv_' g)
       \<and> get_slack_bus_id (generators_' g) (gen_slackbus_' g) = Returns (slack_bus_id_' g')
       \<and> 0 \<le> slack_bus_id_' g' \<and> slack_bus_id_' g' < int (length (bus_vn_kv_' g))
       \<and> (\<exists>Vm Va.
            length Vm = length (bus_vn_kv_' g) \<and> length Va = length (bus_vn_kv_' g)
          \<and> (\<forall>i < length (bus_vn_kv_' g).
               V ! i = Complex (rnd (arith env) (Vm ! i * lib_cos (arith env) (Va ! i)))
                               (rnd (arith env) (Vm ! i * lib_sin (arith env) (Va ! i))))
          \<and> Va ! nat (slack_bus_id_' g')
              = rnd (arith env) (0 + lib_arg (arith env) (Vinit ! nat (slack_bus_id_' g')))
          \<and> (\<forall>i < length (bus_vn_kv_' g). \<not> bus_status_' g ! i \<longrightarrow> Vm ! i = 0)
          \<and> (\<forall>i < length (bus_vn_kv_' g).
               bus_status_' g ! i
               \<and> (\<forall>k \<in> set (gens (generators_' g)). gen_status k \<longrightarrow> gen_bus k \<noteq> int i)
               \<longrightarrow> Vm ! i = 1)
          \<and> (\<forall>i < length (bus_vn_kv_' g).
               filter (\<lambda>k. gen_status k \<and> gen_bus k = int i) (gens (generators_' g)) \<noteq> []
               \<longrightarrow> Vm ! i = gen_v (last (filter (\<lambda>k. gen_status k \<and> gen_bus k = int i)
                                             (gens (generators_' g)))))
          \<and> (arith env = exact_ops \<longrightarrow>
               (\<forall>i < length (bus_vn_kv_' g). cmod (V ! i) = \<bar>Vm ! i\<bar>)
             \<and> (0 < Vm ! nat (slack_bus_id_' g')
                \<longrightarrow> Arg (V ! nat (slack_bus_id_' g')) = Arg (Vinit ! nat (slack_bus_id_' g')))))
       \<and> (rnd (arith env) 0 = 0
          \<longrightarrow> (\<forall>i < length (bus_vn_kv_' g). \<not> bus_status_' g ! i \<longrightarrow> V ! i = 0))"
proof -
  let ?N = "length (bus_vn_kv_' g)"
  let ?st = "bus_status_' g"
  let ?gs = "gens (generators_' g)"
  let ?ops = "arith env"
  from assms(1) obtain slack where sz: "length Vinit = ?N"
    and gs: "get_slack_bus_id (generators_' g) (gen_slackbus_' g) = Returns slack"
    and g': "g' = g\<lparr>slack_bus_id_' := slack\<rparr>"
    and run: "dc_pf_old_solve env Vinit (g\<lparr>slack_bus_id_' := slack\<rparr>) = Returns V"
    by (auto simp: dc_pf_old_def Let_def split: if_splits outcome.splits)
  from dc_pf_old_solve_shape [OF run assms(2)] sz
  obtain Va where lv: "length Va = ?N" and sb: "0 \<le> slack" "slack < int ?N"
    and va: "Va ! nat slack = rnd ?ops (0 + lib_arg ?ops (Vinit ! nat slack))"
    and V: "V = map (\<lambda>i. polar ?ops (dc_vm_at ?gs ?st i) (Va ! i)) [0..<?N]"
    and conn: "\<forall>k \<in> set ?gs. gen_status k \<longrightarrow>
                0 \<le> gen_bus k \<and> gen_bus k < int ?N \<and> ?st ! nat (gen_bus k)"
    by auto
  let ?Vm = "map (dc_vm_at ?gs ?st) [0..<?N]"
  have len: "length V = ?N" by (simp add: V)
  have lm: "length ?Vm = ?N" by simp
  have nth: "V ! i = polar ?ops (?Vm ! i) (Va ! i)" if "i < ?N" for i
    using that by (simp add: V)
  have form: "\<forall>i < ?N. V ! i = Complex (rnd ?ops (?Vm ! i * lib_cos ?ops (Va ! i)))
                                      (rnd ?ops (?Vm ! i * lib_sin ?ops (Va ! i)))"
    using nth by (simp add: polar_def)
  have off: "\<forall>i < ?N. \<not> ?st ! i \<longrightarrow> ?Vm ! i = 0"
  proof (intro allI impI)
    fix i assume i: "i < ?N" and d: "\<not> ?st ! i"
    have "filter (\<lambda>k. gen_status k \<and> gen_bus k = int i) ?gs = []"
      using conn d by (auto simp: filter_empty_conv)
    then show "?Vm ! i = 0" using d i by (simp add: dc_vm_at_def)
  qed
  have one: "\<forall>i < ?N. ?st ! i \<and> (\<forall>k \<in> set ?gs. gen_status k \<longrightarrow> gen_bus k \<noteq> int i) \<longrightarrow> ?Vm ! i = 1"
  proof (intro allI impI)
    fix i assume i: "i < ?N"
      and c: "?st ! i \<and> (\<forall>k \<in> set ?gs. gen_status k \<longrightarrow> gen_bus k \<noteq> int i)"
    then have "filter (\<lambda>k. gen_status k \<and> gen_bus k = int i) ?gs = []"
      by (auto simp: filter_empty_conv)
    then show "?Vm ! i = 1" using c i by (simp add: dc_vm_at_def)
  qed
  have gen: "\<forall>i < ?N. filter (\<lambda>k. gen_status k \<and> gen_bus k = int i) ?gs \<noteq> []
               \<longrightarrow> ?Vm ! i = gen_v (last (filter (\<lambda>k. gen_status k \<and> gen_bus k = int i) ?gs))"
  proof (intro allI impI)
    fix i assume i: "i < ?N" and f: "filter (\<lambda>k. gen_status k \<and> gen_bus k = int i) ?gs \<noteq> []"
    from f have "dc_vm_at ?gs ?st i = gen_v (last (filter (\<lambda>k. gen_status k \<and> gen_bus k = int i) ?gs))"
      by (simp add: dc_vm_at_def split: list.splits)
    with i show "?Vm ! i = gen_v (last (filter (\<lambda>k. gen_status k \<and> gen_bus k = int i) ?gs))"
      by simp
  qed
  have exact: "arith env = exact_ops \<longrightarrow>
                 (\<forall>i < ?N. cmod (V ! i) = \<bar>?Vm ! i\<bar>)
               \<and> (0 < ?Vm ! nat slack \<longrightarrow> Arg (V ! nat slack) = Arg (Vinit ! nat slack))"
  proof
    assume e: "arith env = exact_ops"
    have a: "\<forall>i < ?N. cmod (V ! i) = \<bar>?Vm ! i\<bar>"
      using nth by (simp add: e cmod_polar_exact)
    have "Va ! nat slack = Arg (Vinit ! nat slack)"
      using va by (simp add: e exact_ops_def)
    with nth [of "nat slack"] sb
    have "V ! nat slack = polar exact_ops (?Vm ! nat slack) (Arg (Vinit ! nat slack))"
      by (simp add: e)
    then have b: "0 < ?Vm ! nat slack \<longrightarrow> Arg (V ! nat slack) = Arg (Vinit ! nat slack)"
      by (simp add: Arg_polar_exact)
    from a b show "(\<forall>i < ?N. cmod (V ! i) = \<bar>?Vm ! i\<bar>)
               \<and> (0 < ?Vm ! nat slack \<longrightarrow> Arg (V ! nat slack) = Arg (Vinit ! nat slack))"
      by (rule conjI)
  qed
  have zero: "rnd ?ops 0 = 0 \<longrightarrow> (\<forall>i < ?N. \<not> ?st ! i \<longrightarrow> V ! i = 0)"
  proof (intro allI impI)
    fix i assume r: "rnd ?ops 0 = 0" and i: "i < ?N" and d: "\<not> ?st ! i"
    from off i d have "?Vm ! i = 0" by blast
    with form i r show "V ! i = 0" by (simp add: complex_eq_iff)
  qed
  have inner: "\<exists>Vm Va.
            length Vm = ?N \<and> length Va = ?N
          \<and> (\<forall>i < ?N. V ! i = Complex (rnd ?ops (Vm ! i * lib_cos ?ops (Va ! i)))
                                     (rnd ?ops (Vm ! i * lib_sin ?ops (Va ! i))))
          \<and> Va ! nat slack = rnd ?ops (0 + lib_arg ?ops (Vinit ! nat slack))
          \<and> (\<forall>i < ?N. \<not> ?st ! i \<longrightarrow> Vm ! i = 0)
          \<and> (\<forall>i < ?N. ?st ! i \<and> (\<forall>k \<in> set ?gs. gen_status k \<longrightarrow> gen_bus k \<noteq> int i) \<longrightarrow> Vm ! i = 1)
          \<and> (\<forall>i < ?N. filter (\<lambda>k. gen_status k \<and> gen_bus k = int i) ?gs \<noteq> []
               \<longrightarrow> Vm ! i = gen_v (last (filter (\<lambda>k. gen_status k \<and> gen_bus k = int i) ?gs)))
          \<and> (arith env = exact_ops \<longrightarrow>
               (\<forall>i < ?N. cmod (V ! i) = \<bar>Vm ! i\<bar>)
             \<and> (0 < Vm ! nat slack \<longrightarrow> Arg (V ! nat slack) = Arg (Vinit ! nat slack)))"
    using lm lv form va off one gen exact
    by (intro exI [of _ ?Vm] exI [of _ Va] conjI) assumption+
  have g'_slack: "slack_bus_id_' g' = slack" by (simp add: g')
  show ?thesis
    unfolding g'_slack using len gs sb inner zero by (intro conjI) assumption+
qed

text \<open>
  A run in exact arithmetic: three buses, bus 2 disconnected, generators at the buses 0
  (the slack) and 1, and \<open>Vinit\<close> with the argument \<open>\<pi>/2\<close> at the slack bus.
\<close>

lemma dc_pf_old_bus2_off:
  "dc_pf_old (idle_env True) [\<i>, 1, 1] 10 0 bus2_off
     = (Returns [Complex 0 1.02, Complex 0 1.05, 0], bus2_off\<lparr>slack_bus_id_' := 0\<rparr>)"
proof -
  have m: "init_Ybus_maps (Suc (Suc (Suc 0))) [True, True, False] = ([0, 1, - 1], [0, 1], 2)"
    by code_simp
  show ?thesis
    by (simp add: dc_pf_old_def dc_pf_old_solve_def bus2_off_def three_bus_def two_bus_def
          get_slack_bus_id_def nb_def init_Ybus_def m Let_def deactivated_bus_id_def
          fillYbus_def bind_outcome_def idle_env_def idle_ops_def fillSbus_me_def
          fillSbus_stamps_def and_then_def read_at_def slack_correction_def dc_Ybus_def
          shift_slack_def dc_Vm_init_def empty_matrix_def reset_refs_def exact_ops_def
          polar_def dsum_def complex_eq_iff)
qed

theorem C5_dc_pf_old_witness:
  "fst (dc_pf_old (idle_env True) [\<i>, 1, 1] 10 0 bus2_off)
     = Returns [Complex 0 1.02, Complex 0 1.05, 0]
 \<and> bus_status_' bus2_off = [True, True, False]
 \<and> cmod ([Complex 0 1.02, Complex 0 1.05, 0] ! 1) = 1.05
 \<and> Arg ([Complex 0 1.02, Complex 0 1.05, 0] ! 0) = Arg ([\<i>, 1, 1] ! 0)
 \<and> Arg \<i> = pi / 2"
proof -
  have ne: "[Complex 0 1.02, Complex 0 1.05, 0] \<noteq> []" by simp
  have st: "bus_status_' bus2_off = [True, True, False]"
    by (simp add: bus2_off_def)
  have e: "Complex 0 1.02 = polar exact_ops 1.02 (Arg \<i>)" "Complex 0 1.05 = polar exact_ops 1.05 (Arg \<i>)"
    by (simp_all add: polar_def exact_ops_def)
  have "cmod (Complex 0 1.05) = cmod (polar exact_ops 1.05 (Arg \<i>))"
    by (simp only: e(2) [symmetric])
  then have c: "cmod ([Complex 0 1.02, Complex 0 1.05, 0] ! 1) = 1.05"
    by (simp only: cmod_polar_exact) simp
  have "Arg (polar exact_ops 1.02 (Arg \<i>)) = Arg \<i>"
    by (rule Arg_polar_exact) simp
  then have "Arg (Complex 0 1.02) = Arg \<i>"
    by (simp only: e(1) [symmetric])
  then have a: "Arg ([Complex 0 1.02, Complex 0 1.05, 0] ! 0) = Arg ([\<i>, 1, 1] ! 0)"
    by simp
  from C5_dc_pf_old [OF dc_pf_old_bus2_off ne] have "length [Complex 0 1.02, Complex 0 1.05, 0 :: complex]
      = length (bus_vn_kv_' bus2_off)"
    by (rule conjunct1)
  with dc_pf_old_bus2_off st c a show ?thesis by simp
qed

subsection \<open>get_state and set_state\<close>

lemma reset_reset: "reset (reset g) = reset g"
  by (simp add: reset_def solver_reset_def)

lemma pre_process_solver_reset:
  "pre_process_solver env Vinit is_ac (reset g) = pre_process_solver env Vinit is_ac g"
  unfolding pre_process_solver_def by (simp only: reset_reset)

lemma aside_fields:
  "refs_' (aside c a b sg st g) = refs_' g"
  "bus_vn_kv_' (aside c a b sg st g) = bus_vn_kv_' g"
  "bus_status_' (aside c a b sg st g) = bus_status_' g"
  "generators_' (aside c a b sg st g) = generators_' g"
  "gen_slackbus_' (aside c a b sg st g) = gen_slackbus_' g"
  "slack_bus_id_' (aside c a b sg st g) = slack_bus_id_' g"
  "bus_pv_' (aside c a b sg st g) = bus_pv_' g"
  "bus_pq_' (aside c a b sg st g) = bus_pq_' g"
  "solver (aside c a b sg st g) = solver g"
  by (simp_all add: aside_def)

lemma aside_updates:
  "(aside c a b sg st g)\<lparr>refs_' := r\<rparr> = aside c a b sg st (g\<lparr>refs_' := r\<rparr>)"
  "(aside c a b sg st g)\<lparr>slack_bus_id_' := s\<rparr> = aside c a b sg st (g\<lparr>slack_bus_id_' := s\<rparr>)"
  "(aside c a b sg st g)\<lparr>generators_' := gs\<rparr> = aside c a b sg st (g\<lparr>generators_' := gs\<rparr>)"
  "(aside c a b sg st g)\<lparr>bus_pv_' := pv\<rparr> = aside c a b sg st (g\<lparr>bus_pv_' := pv\<rparr>)"
  "(aside c a b sg st g)\<lparr>bus_pq_' := pq\<rparr> = aside c a b sg st (g\<lparr>bus_pq_' := pq\<rparr>)"
  by (simp_all add: aside_def)

lemma reset_aside: "reset (aside c a b sg st g) = aside c a b sg st (reset g)"
  by (simp add: aside_def reset_def)

lemma fillYbus_aside: "fillYbus env (aside c a b sg st g) = fillYbus env g"
  by (intro ext) (simp add: fillYbus_def aside_def)

lemma fillSbus_me_aside: "fillSbus_me env (aside c a b sg st g) = fillSbus_me env g"
  by (intro ext) (simp add: fillSbus_me_def fillSbus_stamps_def aside_def)

lemma fillpv_pq_aside:
  "fillpv_pq m (aside c a b sg st g) = map_prod id (aside c a b sg st) (fillpv_pq m g)"
  by (simp add: fillpv_pq_def Let_def aside_def split: prod.splits outcome.splits)

lemma pre_process_solver_aside:
  assumes "pre_process_solver env Vinit is_ac g = (out, g')"
  shows "pre_process_solver env Vinit is_ac (aside c a b sg st g) = (out, aside c a b sg st g')"
  using assms
  unfolding pre_process_solver_def Let_def
  by (simp add: reset_aside aside_fields aside_updates fillYbus_aside fillSbus_me_aside
        fillpv_pq_aside
      split: prod.split_asm outcome.split_asm cong: outcome.case_cong prod.case_cong)
     (auto split: outcome.splits prod.splits)


lemma process_results_fst:
  "fst (process_results env conv res Vinit x) =
     (if conv
      then results_to_me (bus_status_' x) (id_me_to_solver (refs_' x)) (get_V (solver x))
             [0..<length (bus_vn_kv_' x)] (replicate (length Vinit) 0)
      else Returns res)"
  by (simp add: process_results_def Let_def compute_results_def)

lemma ac_pf_fst:
  "fst (ac_pf env Vinit max_iter tol x) =
     (if length Vinit \<noteq> length (bus_vn_kv_' x) then Throws InputSizeMismatch
      else case fst (pre_process_solver env Vinit True x) of
        Throws e \<Rightarrow> Throws e
      | Returns V \<Rightarrow>
          (let g1 = snd (pre_process_solver env Vinit True x);
               c = compute_pf env (solver g1) (Ybus (refs_' g1)) V (Sbus (refs_' g1))
                     (bus_pv_' g1) (bus_pq_' g1) max_iter tol
           in if fst c
              then results_to_me (bus_status_' g1) (id_me_to_solver (refs_' g1)) (get_V (snd c))
                     [0..<length (bus_vn_kv_' g1)] (replicate (length Vinit) 0)
              else Returns []))"
  by (auto simp: ac_pf_def process_results_fst Let_def split: prod.splits outcome.splits)

lemma pre_process_solver_slack_member:
  assumes "pre_process_solver env Vinit is_ac g = (out, g')"
  shows "pre_process_solver env Vinit is_ac (g\<lparr>slack_bus_id_' := s\<rparr>) =
           (out, case get_slack_bus_id (generators_' g) (gen_slackbus_' g) of
                   Throws e \<Rightarrow> g'\<lparr>slack_bus_id_' := s\<rparr> | Returns _ \<Rightarrow> g')"
proof (cases "get_slack_bus_id (generators_' g) (gen_slackbus_' g)")
  case (Throws e)
  with assms show ?thesis
    by (auto simp: pre_process_solver_def Let_def reset_def)
next
  case (Returns slack)
  then have "pre_process_solver env Vinit is_ac (g\<lparr>slack_bus_id_' := s\<rparr>)
           = pre_process_solver env Vinit is_ac g"
    by (simp add: pre_process_solver_def Let_def reset_def)
  with assms Returns show ?thesis by simp
qed

lemma set_state_get_state_reset:
  fixes g h :: "('l, 's, 't, 'sg) GridModel"
  assumes "solver_type (solver h) = solver_type (solver g)"
  shows "reset (set_state (get_state g) h)
       = (aside True (init_vm_pu_' h) (sn_mva_' h) (sgens_' h) (storages_' h) (reset g))
           \<lparr>slack_bus_id_' := slack_bus_id_' h\<rparr>"
proof -
  have "solver_reset (solver_reset (solver h)) = solver_reset (solver g)"
    using assms by (simp add: solver_reset_def)
  then show ?thesis
    by (simp add: set_state_def get_state_def reset_def aside_def)
qed

lemma ac_pf_after_set_state:
  fixes g h :: "('l, 's, 't, 'sg) GridModel"
  assumes "solver_type (solver h) = solver_type (solver g)"
  shows "fst (ac_pf env Vinit max_iter tol (set_state (get_state g) h))
       = fst (ac_pf env Vinit max_iter tol g)"
proof -
  let ?h' = "set_state (get_state g) h"
  let ?a = "aside True (init_vm_pu_' h) (sn_mva_' h) (sgens_' h) (storages_' h)"
  obtain out g1 where p: "pre_process_solver env Vinit True g = (out, g1)"
    by (cases "pre_process_solver env Vinit True g")
  then have "pre_process_solver env Vinit True (reset g) = (out, g1)"
    by (simp add: pre_process_solver_reset)
  then have "pre_process_solver env Vinit True (?a (reset g)) = (out, ?a g1)"
    by (rule pre_process_solver_aside)
  from pre_process_solver_slack_member [OF this, of "slack_bus_id_' h"]
  obtain g2 where p2: "pre_process_solver env Vinit True ((?a (reset g))\<lparr>slack_bus_id_' := slack_bus_id_' h\<rparr>)
        = (out, g2)" and g2: "g2 = ?a g1 \<or> g2 = (?a g1)\<lparr>slack_bus_id_' := slack_bus_id_' h\<rparr>"
    by (auto split: outcome.splits)
  have p': "pre_process_solver env Vinit True ?h' = (out, g2)"
    using p2 pre_process_solver_reset [of env Vinit True ?h']
    by (simp add: set_state_get_state_reset [OF assms])
  from g2 have same: "refs_' g2 = refs_' g1" "bus_pv_' g2 = bus_pv_' g1" "bus_pq_' g2 = bus_pq_' g1"
    "solver g2 = solver g1" "bus_status_' g2 = bus_status_' g1" "bus_vn_kv_' g2 = bus_vn_kv_' g1"
    by (auto simp: aside_def)
  have n: "bus_vn_kv_' ?h' = bus_vn_kv_' g"
    by (simp add: set_state_def get_state_def reset_def)
  show ?thesis
    by (cases out) (simp_all add: ac_pf_fst p p' same n Let_def)
qed

text \<open>
  C4, as amended. On the grid that \<^verbatim>\<open>set_state\<close> makes, from the state that \<^verbatim>\<open>get_state\<close> has
  captured, of any grid with the same solver selection, \<^verbatim>\<open>ac_pf\<close> with the same arguments
  returns what it returns on the original: the same voltages or the same error.
\<close>

theorem C4_state_round_trip:
  fixes g h :: "('l, 's, 't, 'sg) GridModel"
  assumes "get_solver_type h = get_solver_type g"
  shows "fst (ac_pf env Vinit max_iter tol (set_state (get_state g) h))
           = fst (ac_pf env Vinit max_iter tol g)"
proof -
  from assms have t: "solver_type (solver h) = solver_type (solver g)"
    by (simp add: get_solver_type_def get_type_def)
  then show ?thesis by (rule ac_pf_after_set_state)
qed

theorem C4_state_round_trip_witness:
  "get_solver_type rebased = get_solver_type two_bus
 \<and> fst (ac_pf (idle_env True) [1, 1] 10 0 (set_state (get_state two_bus) rebased))
     = fst (ac_pf (idle_env True) [1, 1] 10 0 two_bus)
 \<and> fst (ac_pf (idle_env True) [1, 1] 10 0 two_bus) = Returns [1, 1]"
proof -
  have t: "get_solver_type rebased = get_solver_type two_bus"
    by (simp add: rebased_def get_solver_type_def)
  have r: "fst (ac_pf (idle_env True) [1, 1] 10 0 two_bus) = Returns [1, 1]"
    by code_simp
  from C4_state_round_trip [OF t, of "idle_env True" "[1, 1]" 10 0] t r
  show ?thesis by blast
qed

text \<open>
  C4 as stated fails: the solver selection is no part of the state, and \<^verbatim>\<open>set_state\<close> keeps the
  selection of the grid it writes to. Restored onto a grid on which the DC solver is
  selected, the state of \<open>two_bus\<close> gives other voltages than \<open>two_bus\<close>.
\<close>

theorem C4_solver_selection_counterexample:
  "get_solver_type two_bus = AC 0
 \<and> get_solver_type (set_state (get_state two_bus) dc_selected) = DC
 \<and> fst (ac_pf flat_dc_env [2, 2] 10 0 two_bus) = Returns [2, 2]
 \<and> fst (ac_pf flat_dc_env [2, 2] 10 0 (set_state (get_state two_bus) dc_selected)) = Returns [1, 1]"
proof -
  have a: "get_solver_type two_bus = AC 0"
    "get_solver_type (set_state (get_state two_bus) dc_selected) = DC"
    by (simp_all add: get_solver_type_def get_type_def two_bus_def dc_selected_def set_state_def
          get_state_def reset_def solver_reset_def change_solver_def)
  have d: "fst (ac_pf flat_dc_env [2, 2] 10 0 two_bus) = Returns [2, 2]"
    by code_simp
  have e: "fst (ac_pf flat_dc_env [2, 2] 10 0 (set_state (get_state two_bus) dc_selected)) = Returns [1, 1]"
    by code_simp
  from a d e show ?thesis by simp
qed

end
